theory Spec2Isabelle
  imports Complex_Main "HOL-Library.Sublist" "HOL-Library.Multiset"
begin

section \<open>Data model (models.py, and the dictionaries main.py builds)\<close>

text \<open>
  The pydantic classes of models.py become records. Record fields are global names in
  Isabelle, so each field carries a short prefix for its class: \<open>u_\<close> for User,
  \<open>v_\<close> for Venue, \<open>i_\<close> for Interest, \<open>b_\<close> for the booking dictionaries that
  \<open>express_interest\<close> appends to \<open>bookings_list\<close>.

  A \<open>datetime\<close> is an abstract clock reading (a natural number); the ISO string that
  \<open>datetime.now().isoformat()\<close> yields in agent.py is a string handed in from outside.
  Strings are byte lists.
\<close>

type_synonym datetime = nat

record User =
  u_id :: string
  u_name :: string
  u_avatar :: string
  u_bio :: string
  u_interests :: "string list"

record Venue =
  v_id :: string
  v_name :: string
  v_category :: string
  v_description :: string
  v_image :: string
  v_address :: string

record Interest =
  i_user_id :: string
  i_venue_id :: string
  i_timestamp :: datetime

text \<open>
  The dictionary literal of main.py lines 425-432: keys id, venue_id, user_ids,
  reservation_code, created_at, status.
\<close>

record Booking =
  b_id :: string
  b_venue_id :: string
  b_user_ids :: "string list"
  b_reservation_code :: string
  b_created_at :: string
  b_status :: string

text \<open>
  \<open>users_dict\<close> and \<open>venues_dict\<close> are imported from data.py, which is a table of
  fixtures; they are never written by main.py. They are taken as a parameter: insertion
  ordered dictionaries, as association lists read with \<open>map_of\<close>.
\<close>

record directory =
  users_dict :: "(string \<times> User) list"
  venues_dict :: "(string \<times> Venue) list"

text \<open>The two module-level lists that the endpoints mutate.\<close>

record state =
  interests_list :: "Interest list"
  bookings_list :: "Booking list"

section \<open>Rendering integers in f-strings\<close>

definition digit_char :: "nat \<Rightarrow> char" where
  "digit_char n = ''0123456789'' ! n"

function str_nat :: "nat \<Rightarrow> string" where
  "str_nat n = (if n < 10 then [digit_char n]
                else str_nat (n div 10) @ [digit_char (n mod 10)])"
  by pat_completeness auto
termination
  by (relation "measure (\<lambda>n. n)") auto

declare str_nat.simps [simp del]

section \<open>The booking agent (agent.py)\<close>

text \<open>
  \<open>booking_agent\<close> returns a dictionary whose keys depend on the branch taken; a key
  that is absent is \<open>None\<close>. The two readings of the outside world, the draw of
  \<open>random.randint(1000, 9999)\<close> and \<open>datetime.now().isoformat()\<close>, are arguments.
\<close>

record agent_response =
  ar_agent_triggered :: "bool option"
  ar_action :: "string option"
  ar_venue_id :: "string option"
  ar_booking_id :: "string option"
  ar_message :: "string option"
  ar_reservation_code :: "string option"
  ar_user_ids :: "string list option"
  ar_created_at :: "string option"

definition empty_response :: agent_response where
  "empty_response =
     \<lparr>ar_agent_triggered = None, ar_action = None, ar_venue_id = None,
      ar_booking_id = None, ar_message = None, ar_reservation_code = None,
      ar_user_ids = None, ar_created_at = None\<rparr>"

text \<open>The loop of agent.py lines 90-98: the first active booking of the venue.\<close>

fun find_active :: "string \<Rightarrow> Booking list \<Rightarrow> Booking option" where
  "find_active venue_id [] = None"
| "find_active venue_id (booking # rest) =
     (if b_venue_id booking = venue_id \<and> b_status booking = ''active''
      then Some booking else find_active venue_id rest)"

definition booking_agent ::
  "nat \<Rightarrow> string \<Rightarrow> string \<Rightarrow> string \<Rightarrow> nat \<Rightarrow> string list \<Rightarrow> Booking list
   \<Rightarrow> agent_response" where
  "booking_agent randint now_iso venue_id venue_name user_count interested_user_ids
       existing_bookings =
     (let threshold = 3 in
      if user_count < threshold then empty_response\<lparr>ar_agent_triggered := Some False\<rparr>
      else case find_active venue_id existing_bookings of
        Some booking \<Rightarrow>
          empty_response
            \<lparr>ar_agent_triggered := Some False,
             ar_action := Some ''booking_exists'',
             ar_venue_id := Some venue_id,
             ar_message := Some (''Active booking already exists for '' @ venue_name),
             ar_reservation_code := Some (b_reservation_code booking)\<rparr>
      | None \<Rightarrow>
          (let reservation_code = ''LUNA-'' @ venue_id @ ''-'' @ str_nat randint;
               booking_id = ''booking_'' @ str_nat (length existing_bookings + 1)
           in empty_response
                \<lparr>ar_agent_triggered := Some True,
                 ar_action := Some ''reservation_simulated'',
                 ar_venue_id := Some venue_id,
                 ar_booking_id := Some booking_id,
                 ar_message := Some (''Mock booking agent: Reserved table for ''
                    @ str_nat user_count @ '' at '' @ venue_name),
                 ar_reservation_code := Some reservation_code,
                 ar_user_ids := Some interested_user_ids,
                 ar_created_at := Some now_iso\<rparr>))"




definition mint_code :: "string \<Rightarrow> nat \<Rightarrow> string" where
  "mint_code venue_id randint = ''LUNA-'' @ venue_id @ ''-'' @ str_nat randint"

definition mint_booking_id :: "Booking list \<Rightarrow> string" where
  "mint_booking_id existing_bookings = ''booking_'' @ str_nat (length existing_bookings + 1)"

definition is_active_for :: "string \<Rightarrow> Booking \<Rightarrow> bool" where
  "is_active_for venue_id booking \<longleftrightarrow>
     b_venue_id booking = venue_id \<and> b_status booking = ''active''"

section \<open>Counting interests (main.py, helper functions)\<close>

definition get_interested_count :: "Interest list \<Rightarrow> string \<Rightarrow> nat" where
  "get_interested_count interests venue_id =
     length (filter (\<lambda>interest. i_venue_id interest = venue_id) interests)"

definition count_friends_interested :: "Interest list \<Rightarrow> string \<Rightarrow> string \<Rightarrow> nat" where
  "count_friends_interested interests user_id venue_id =
     length (filter (\<lambda>interest. i_venue_id interest = venue_id \<and> i_user_id interest \<noteq> user_id)
        interests)"

section \<open>POST /interests (main.py, express\_interest)\<close>

record InterestRequest =
  req_user_id :: string
  req_venue_id :: string

record InterestResponse =
  success :: bool
  agent_triggered :: bool
  message :: string
  reservation_code :: "string option"
  booking_cancelled :: "bool option"

datatype http_error = HTTPException nat string

datatype log_level = INFO | WARNING | ERROR

type_synonym log_record = "log_level \<times> string"

text \<open>
  What the \<open>try\<close> block can raise: a \<open>KeyError\<close> for a key the response lacks, or
  whatever the collaborator raises. \<open>str_exn\<close> is Python's \<open>str(e)\<close>.
\<close>

datatype exn = KeyError string | Exception string

fun str_exn :: "exn \<Rightarrow> string" where
  "str_exn (KeyError k) = [CHR 0x27] @ k @ [CHR 0x27]"
| "str_exn (Exception m) = m"

text \<open>
  The collaborator called at main.py line 414, with its five arguments. The repository's
  only collaborator is \<open>booking_agent\<close>, which cannot raise; the \<open>except\<close> branch of
  lines 460-468 is written for a collaborator that can, so the callee is an argument of
  the model and \<open>express_interest\<close> below is the instance the repository runs.
\<close>

type_synonym agent =
  "string \<Rightarrow> string \<Rightarrow> nat \<Rightarrow> string list \<Rightarrow> Booking list \<Rightarrow> exn + agent_response"

text \<open>The \<open>for i, interest in enumerate(...)\<close> loop with its \<open>break\<close>, lines 356-360.\<close>

fun find_existing :: "string \<Rightarrow> string \<Rightarrow> Interest list \<Rightarrow> nat option" where
  "find_existing user_id venue_id [] = None"
| "find_existing user_id venue_id (interest # rest) =
     (if i_user_id interest = user_id \<and> i_venue_id interest = venue_id then Some 0
      else map_option Suc (find_existing user_id venue_id rest))"

text \<open>\<open>list.pop(i)\<close> for an index in range; the index comes from \<open>find_existing\<close>.\<close>

definition pop :: "nat \<Rightarrow> 'a list \<Rightarrow> 'a list" where
  "pop i xs = take i xs @ drop (Suc i) xs"

text \<open>
  \<open>active_booking["status"] = "cancelled"\<close> writes through the reference into the
  dictionary that sits in \<open>bookings_list\<close>: the first active booking of the venue is
  replaced in place.
\<close>

fun cancel_active :: "string \<Rightarrow> Booking list \<Rightarrow> Booking list" where
  "cancel_active venue_id [] = []"
| "cancel_active venue_id (booking # rest) =
     (if b_venue_id booking = venue_id \<and> b_status booking = ''active''
      then booking\<lparr>b_status := ''cancelled''\<rparr> # rest
      else booking # cancel_active venue_id rest)"

text \<open>Lines 362-393: the interest exists at index \<open>existing_interest\<close>.\<close>

definition toggle_off ::
  "Venue \<Rightarrow> InterestRequest \<Rightarrow> nat \<Rightarrow> state \<Rightarrow> InterestResponse \<times> state \<times> log_record list"
where
  "toggle_off venue request existing_interest s =
     (let interests = pop existing_interest (interests_list s);
          log1 = [(INFO, ''Interest removed: user='' @ req_user_id request
                     @ '', venue='' @ req_venue_id request)];
          interested_count = get_interested_count interests (req_venue_id request);
          active_booking = find_active (req_venue_id request) (bookings_list s)
      in if active_booking \<noteq> None \<and> interested_count < 3
         then (\<lparr>success = True, agent_triggered = False,
                 message = ''Interest removed. Booking cancelled due to insufficient interest.'',
                 reservation_code = None, booking_cancelled = Some True\<rparr>,
               \<lparr>interests_list = interests,
                 bookings_list = cancel_active (req_venue_id request) (bookings_list s)\<rparr>,
               log1 @ [(INFO, ''Booking cancelled for venue='' @ req_venue_id request
                     @ '', count dropped to '' @ str_nat interested_count)])
         else (\<lparr>success = True, agent_triggered = False,
                 message = ''Interest removed for '' @ v_name venue,
                 reservation_code = None, booking_cancelled = Some False\<rparr>,
               \<lparr>interests_list = interests, bookings_list = bookings_list s\<rparr>,
               log1))"

text \<open>
  Lines 413-459, the body of the \<open>try\<close>. It returns what it has appended to
  \<open>bookings_list\<close> and logged also when it raises, since neither is undone.
\<close>

definition try_block ::
  "agent \<Rightarrow> InterestRequest \<Rightarrow> string \<Rightarrow> nat \<Rightarrow> string list \<Rightarrow> Booking list
   \<Rightarrow> (exn + InterestResponse) \<times> Booking list \<times> log_record list" where
  "try_block agent request venue_name interested_count interested_user_ids bookings =
     (case agent (req_venue_id request) venue_name interested_count interested_user_ids bookings of
        Inl e \<Rightarrow> (Inl e, bookings, [])
      | Inr agent_response \<Rightarrow>
        (case ar_agent_triggered agent_response of
           None \<Rightarrow> (Inl (KeyError ''agent_triggered''), bookings, [])
         | Some True \<Rightarrow>
            (case ar_booking_id agent_response of
               None \<Rightarrow> (Inl (KeyError ''booking_id''), bookings, [])
             | Some booking_id \<Rightarrow>
            (case ar_user_ids agent_response of
               None \<Rightarrow> (Inl (KeyError ''user_ids''), bookings, [])
             | Some user_ids \<Rightarrow>
            (case ar_reservation_code agent_response of
               None \<Rightarrow> (Inl (KeyError ''reservation_code''), bookings, [])
             | Some code \<Rightarrow>
            (case ar_created_at agent_response of
               None \<Rightarrow> (Inl (KeyError ''created_at''), bookings, [])
             | Some created_at \<Rightarrow>
               (let booking = \<lparr>b_id = booking_id, b_venue_id = req_venue_id request,
                                b_user_ids = user_ids, b_reservation_code = code,
                                b_created_at = created_at, b_status = ''active''\<rparr>;
                    bookings' = bookings @ [booking];
                    log1 = [(INFO, ''Booking created: '' @ b_id booking @ '' for venue=''
                               @ req_venue_id request @ '', count='' @ str_nat interested_count)]
                in case ar_message agent_response of
                     None \<Rightarrow> (Inl (KeyError ''message''), bookings', log1)
                   | Some msg \<Rightarrow>
                       (Inr \<lparr>success = True, agent_triggered = True, message = msg,
                             reservation_code = Some code, booking_cancelled = Some False\<rparr>,
                        bookings', log1))))))
         | Some False \<Rightarrow>
            (if ar_action agent_response = Some ''booking_exists''
             then
               (let log1 = [(INFO, ''Booking already exists for venue='' @ req_venue_id request)]
                in case ar_message agent_response of
                     None \<Rightarrow> (Inl (KeyError ''message''), bookings, log1)
                   | Some msg \<Rightarrow>
                  (case ar_reservation_code agent_response of
                     None \<Rightarrow> (Inl (KeyError ''reservation_code''), bookings, log1)
                   | Some code \<Rightarrow>
                       (Inr \<lparr>success = True, agent_triggered = False,
                             message = ''Interest recorded. '' @ msg,
                             reservation_code = Some code, booking_cancelled = Some False\<rparr>,
                        bookings, log1)))
             else (Inr \<lparr>success = True, agent_triggered = False,
                        message = ''Interest recorded successfully'',
                        reservation_code = None, booking_cancelled = Some False\<rparr>,
                   bookings, []))))"

text \<open>Lines 394-468: no interest exists; \<open>now\<close> is the \<open>datetime.now()\<close> of line 400.\<close>

definition toggle_on ::
  "agent \<Rightarrow> datetime \<Rightarrow> Venue \<Rightarrow> InterestRequest \<Rightarrow> state
   \<Rightarrow> InterestResponse \<times> state \<times> log_record list" where
  "toggle_on agent now venue request s =
     (let new_interest = \<lparr>i_user_id = req_user_id request, i_venue_id = req_venue_id request,
                           i_timestamp = now\<rparr>;
          interests = interests_list s @ [new_interest];
          log1 = [(INFO, ''Interest added: user='' @ req_user_id request
                     @ '', venue='' @ req_venue_id request)];
          interested_user_ids =
            map i_user_id (filter (\<lambda>interest. i_venue_id interest = req_venue_id request) interests);
          interested_count = length interested_user_ids;
          venue_name = v_name venue
      in case try_block agent request venue_name interested_count interested_user_ids
                (bookings_list s) of
           (Inr response, bookings, log2) \<Rightarrow>
             (response, \<lparr>interests_list = interests, bookings_list = bookings\<rparr>, log1 @ log2)
         | (Inl e, bookings, log2) \<Rightarrow>
             (\<lparr>success = True, agent_triggered = False,
               message = ''Interest recorded successfully'',
               reservation_code = None, booking_cancelled = Some False\<rparr>,
              \<lparr>interests_list = interests, bookings_list = bookings\<rparr>,
              log1 @ log2 @ [(ERROR, ''Booking agent error: '' @ str_exn e)]))"

text \<open>
  The endpoint. The request has passed the validator of \<open>InterestRequest\<close> before the
  function is entered. The per-venue lock serialises calls; the model is of one call
  at a time, so the lock does not appear.
\<close>

definition express_interest_with ::
  "agent \<Rightarrow> datetime \<Rightarrow> directory \<Rightarrow> InterestRequest \<Rightarrow> state
   \<Rightarrow> (http_error + InterestResponse) \<times> state \<times> log_record list" where
  "express_interest_with agent now d request s =
     (let log0 = [(INFO, ''Express interest request: user='' @ req_user_id request
                     @ '', venue='' @ req_venue_id request)]
      in case map_of (users_dict d) (req_user_id request) of
           None \<Rightarrow>
             (Inl (HTTPException 404
                    (''User with id '' @ [CHR 0x27] @ req_user_id request @ [CHR 0x27]
                       @ '' not found'')),
              s, log0 @ [(WARNING, ''User not found: '' @ req_user_id request)])
         | Some user \<Rightarrow>
        (case map_of (venues_dict d) (req_venue_id request) of
           None \<Rightarrow>
             (Inl (HTTPException 404
                    (''Venue with id '' @ [CHR 0x27] @ req_venue_id request @ [CHR 0x27]
                       @ '' not found'')),
              s, log0 @ [(WARNING, ''Venue not found: '' @ req_venue_id request)])
         | Some venue \<Rightarrow>
        (case find_existing (req_user_id request) (req_venue_id request) (interests_list s) of
           Some existing_interest \<Rightarrow>
             (case toggle_off venue request existing_interest s of
                (response, s', log1) \<Rightarrow> (Inr response, s', log0 @ log1))
         | None \<Rightarrow>
             (case toggle_on agent now venue request s of
                (response, s', log1) \<Rightarrow> (Inr response, s', log0 @ log1)))))"

text \<open>
  What one call reads from outside the process: the clock at line 400, the random draw
  and the clock inside \<open>booking_agent\<close>.
\<close>

record env =
  now :: datetime
  randint :: nat
  agent_now_iso :: string

definition live_agent :: "env \<Rightarrow> agent" where
  "live_agent e venue_id venue_name user_count interested_user_ids existing_bookings =
     Inr (booking_agent (randint e) (agent_now_iso e) venue_id venue_name user_count
            interested_user_ids existing_bookings)"

definition express_interest ::
  "directory \<Rightarrow> env \<Rightarrow> InterestRequest \<Rightarrow> state
   \<Rightarrow> (http_error + InterestResponse) \<times> state \<times> log_record list" where
  "express_interest d e request s = express_interest_with (live_agent e) (now e) d request s"

text \<open>The outcomes of the design, as the responses that the code builds for them.\<close>

definition InterestRecorded :: InterestResponse where
  "InterestRecorded =
     \<lparr>success = True, agent_triggered = False, message = ''Interest recorded successfully'',
      reservation_code = None, booking_cancelled = Some False\<rparr>"

definition InterestRemoved :: "string \<Rightarrow> InterestResponse" where
  "InterestRemoved venue_name =
     \<lparr>success = True, agent_triggered = False, message = ''Interest removed for '' @ venue_name,
      reservation_code = None, booking_cancelled = Some False\<rparr>"

definition BookingCreated :: "string \<Rightarrow> string \<Rightarrow> InterestResponse" where
  "BookingCreated msg code =
     \<lparr>success = True, agent_triggered = True, message = msg,
      reservation_code = Some code, booking_cancelled = Some False\<rparr>"

definition BookingAlreadyActive :: "string \<Rightarrow> string \<Rightarrow> InterestResponse" where
  "BookingAlreadyActive venue_name code =
     \<lparr>success = True, agent_triggered = False,
      message = ''Interest recorded. Active booking already exists for '' @ venue_name,
      reservation_code = Some code, booking_cancelled = Some False\<rparr>"

definition BookingCancelled :: InterestResponse where
  "BookingCancelled =
     \<lparr>success = True, agent_triggered = False,
      message = ''Interest removed. Booking cancelled due to insufficient interest.'',
      reservation_code = None, booking_cancelled = Some True\<rparr>"

text \<open>A sequence of calls, each with its own readings of the outside world.\<close>

fun run :: "directory \<Rightarrow> state \<Rightarrow> (env \<times> InterestRequest) list \<Rightarrow> state" where
  "run d s [] = s"
| "run d s ((e, request) # calls) = run d (fst (snd (express_interest d e request s))) calls"

text \<open>
  The process starts with the interests of data.py, whatever they are, and with
  \<open>bookings_list = []\<close> (main.py line 25).
\<close>

definition initial :: "Interest list \<Rightarrow> state" where
  "initial interests = \<lparr>interests_list = interests, bookings_list = []\<rparr>"

section \<open>The recommendation scorer (main.py, calculate\_recommendation\_score)\<close>

text \<open>
  \<open>str.lower()\<close> on the ASCII letters; the strings of the model are bytes, and other
  bytes are left as they are.
\<close>

definition lower_char :: "char \<Rightarrow> char" where
  "lower_char c =
     (case map_of (zip ''ABCDEFGHIJKLMNOPQRSTUVWXYZ'' ''abcdefghijklmnopqrstuvwxyz'') c of
        Some l \<Rightarrow> l
      | None \<Rightarrow> c)"

definition lower :: "string \<Rightarrow> string" where
  "lower s = map lower_char s"

text \<open>\<open>", ".join(reasons)\<close>.\<close>

fun join :: "string \<Rightarrow> string list \<Rightarrow> string" where
  "join sep [] = []"
| "join sep [x] = x"
| "join sep (x # y # ys) = x @ sep @ join sep (y # ys)"

text \<open>
  The loop of lines 225-229 adds 4 once, at the first interest tag for which
  \<open>interest.lower() in venue_category_lower or venue_category_lower in interest.lower()\<close>
  holds; Python's \<open>in\<close> on strings is \<open>sublist\<close>.
\<close>

definition category_matches :: "string list \<Rightarrow> string \<Rightarrow> bool" where
  "category_matches interests category =
     (let venue_category_lower = lower category
      in list_ex (\<lambda>interest. sublist (lower interest) venue_category_lower
                       \<or> sublist venue_category_lower (lower interest)) interests)"

text \<open>
  The score is a Python float. The model computes it in exact rational arithmetic:
  \<open>other / 3\<close> is the exact third, and no rounding happens in the sums.
\<close>

definition calculate_recommendation_score ::
  "directory \<Rightarrow> Interest list \<Rightarrow> string \<Rightarrow> string \<Rightarrow> rat \<times> string \<times> nat \<times> nat" where
  "calculate_recommendation_score d interests user_id venue_id =
     (case map_of (users_dict d) user_id of
        None \<Rightarrow> (0, ''Invalid user or venue'', 0, 0)
      | Some user \<Rightarrow>
     (case map_of (venues_dict d) venue_id of
        None \<Rightarrow> (0, ''Invalid user or venue'', 0, 0)
      | Some venue \<Rightarrow>
        (let total_interested_count = get_interested_count interests venue_id;
             other_users_interested =
               length (filter (\<lambda>interest. i_venue_id interest = venue_id
                                 \<and> i_user_id interest \<noteq> user_id) interests);
             friends_interested = count_friends_interested interests user_id venue_id;
             popularity_score = min (of_nat other_users_interested / 3) (3::rat);
             score1 = 0 + popularity_score;
             reasons1 = (if other_users_interested > 0 then [''Popular venue''] else []);
             matched = category_matches (u_interests user) (v_category venue);
             score2 = (if matched then score1 + 4 else score1);
             reasons2 = (if matched then reasons1 @ [''Matches your interests''] else reasons1);
             friend_score = min friends_interested 3;
             score3 = score2 + of_nat friend_score;
             reasons3 =
               (if friends_interested > 0
                then reasons2 @ [str_nat friends_interested @ '' friend''
                       @ (if friends_interested > 1 then ''s'' else []) @ '' interested'']
                else reasons2);
             reason = (if reasons3 \<noteq> [] then join '', '' reasons3 else ''New venue to explore'')
         in (score3, reason, friends_interested, total_interested_count))))"

section \<open>GET /recommendations (main.py, get\_recommendations)\<close>








section \<open>GET /bookings/\{user\_id\} and GET /venues/\{venue\_id\}/booking\<close>

record booking_venue =
  bv_id :: string
  bv_name :: string
  bv_category :: string
  bv_image :: string
  bv_address :: string

record user_booking =
  ub_id :: string
  ub_venue :: booking_venue
  ub_reservation_code :: string
  ub_created_at :: string
  ub_party_size :: nat

definition user_booking_entry :: "Booking \<Rightarrow> Venue \<Rightarrow> user_booking" where
  "user_booking_entry booking venue =
     \<lparr>ub_id = b_id booking,
      ub_venue = \<lparr>bv_id = v_id venue, bv_name = v_name venue, bv_category = v_category venue,
                  bv_image = v_image venue, bv_address = v_address venue\<rparr>,
      ub_reservation_code = b_reservation_code booking,
      ub_created_at = b_created_at booking,
      ub_party_size = length (b_user_ids booking)\<rparr>"

fun user_bookings_loop :: "directory \<Rightarrow> string \<Rightarrow> Booking list \<Rightarrow> user_booking list" where
  "user_bookings_loop d user_id [] = []"
| "user_bookings_loop d user_id (booking # rest) =
     (if b_status booking = ''active'' \<and> user_id \<in> set (b_user_ids booking)
      then (case map_of (venues_dict d) (b_venue_id booking) of
              Some venue \<Rightarrow> user_booking_entry booking venue # user_bookings_loop d user_id rest
            | None \<Rightarrow> user_bookings_loop d user_id rest)
      else user_bookings_loop d user_id rest)"

definition get_user_bookings ::
  "directory \<Rightarrow> state \<Rightarrow> string \<Rightarrow> http_error + user_booking list" where
  "get_user_bookings d s user_id =
     (case map_of (users_dict d) user_id of
        None \<Rightarrow> Inl (HTTPException 404
                  (''User with id '' @ [CHR 0x27] @ user_id @ [CHR 0x27] @ '' not found''))
      | Some user \<Rightarrow> Inr (user_bookings_loop d user_id (bookings_list s)))"

record venue_booking =
  vb_id :: string
  vb_reservation_code :: string
  vb_created_at :: string
  vb_party_size :: nat

definition venue_booking_entry :: "Booking \<Rightarrow> venue_booking" where
  "venue_booking_entry booking =
     \<lparr>vb_id = b_id booking, vb_reservation_code = b_reservation_code booking,
      vb_created_at = b_created_at booking, vb_party_size = length (b_user_ids booking)\<rparr>"

text \<open>
  \<open>Some\<close> is the answer with \<open>has_booking\<close> true, \<open>None\<close> the one with
  \<open>has_booking\<close> false and \<open>booking\<close> null.
\<close>

definition get_venue_booking ::
  "directory \<Rightarrow> state \<Rightarrow> string \<Rightarrow> http_error + venue_booking option" where
  "get_venue_booking d s venue_id =
     (case map_of (venues_dict d) venue_id of
        None \<Rightarrow> Inl (HTTPException 404
                  (''Venue with id '' @ [CHR 0x27] @ venue_id @ [CHR 0x27] @ '' not found''))
      | Some venue \<Rightarrow> Inr (map_option venue_booking_entry (find_active venue_id (bookings_list s))))"

section \<open>Vocabulary of the design\<close>

text \<open>
  The Interest Ledger as a set of (user, venue) pairs, and the invariant of the data
  model that a pair is recorded at most once.
\<close>

definition interest_key :: "Interest \<Rightarrow> string \<times> string" where
  "interest_key interest = (i_user_id interest, i_venue_id interest)"

definition ledger :: "Interest list \<Rightarrow> (string \<times> string) set" where
  "ledger interests = set (map interest_key interests)"

definition unique_interests :: "Interest list \<Rightarrow> bool" where
  "unique_interests interests \<longleftrightarrow> distinct (map interest_key interests)"

definition active_bookings_for :: "string \<Rightarrow> Booking list \<Rightarrow> Booking list" where
  "active_bookings_for venue_id bookings = filter (is_active_for venue_id) bookings"

text \<open>What the endpoint appends on a toggle-on, and what it installs when the agent says Create.\<close>

definition new_interest :: "datetime \<Rightarrow> InterestRequest \<Rightarrow> Interest" where
  "new_interest t request =
     \<lparr>i_user_id = req_user_id request, i_venue_id = req_venue_id request, i_timestamp = t\<rparr>"

definition interested_user_ids_of :: "Interest list \<Rightarrow> string \<Rightarrow> string list" where
  "interested_user_ids_of interests venue_id =
     map i_user_id (filter (\<lambda>interest. i_venue_id interest = venue_id) interests)"

definition new_booking :: "env \<Rightarrow> string \<Rightarrow> string list \<Rightarrow> Booking list \<Rightarrow> Booking" where
  "new_booking e venue_id user_ids bookings =
     \<lparr>b_id = mint_booking_id bookings, b_venue_id = venue_id, b_user_ids = user_ids,
      b_reservation_code = mint_code venue_id (randint e),
      b_created_at = agent_now_iso e, b_status = ''active''\<rparr>"

definition created_message :: "nat \<Rightarrow> string \<Rightarrow> string" where
  "created_message user_count venue_name =
     ''Mock booking agent: Reserved table for '' @ str_nat user_count @ '' at '' @ venue_name"

text \<open>
  What holds of the two lists in every state the process can be in: a venue has at most
  one active booking, and a venue with an active booking has three interests or more.
\<close>

definition consistent :: "state \<Rightarrow> bool" where
  "consistent s \<longleftrightarrow>
     (\<forall>v. length (active_bookings_for v (bookings_list s)) \<le> 1 \<and>
          (active_bookings_for v (bookings_list s) \<noteq> [] \<longrightarrow>
             3 \<le> get_interested_count (interests_list s) v))"

text \<open>
  The ids that the agent has minted so far, when every booking of the list was installed
  on its answer: the record at index i has the id minted for a list of length i.
\<close>

definition ids_minted :: "Booking list \<Rightarrow> bool" where
  "ids_minted bookings \<longleftrightarrow>
     map b_id bookings = map (\<lambda>i. ''booking_'' @ str_nat (i + 1)) [0..<length bookings]"

text \<open>The response and the state in what a call of the endpoint yields.\<close>

definition response_of :: "'r \<times> state \<times> log_record list \<Rightarrow> 'r" where
  "response_of result = fst result"

definition state_of :: "'r \<times> state \<times> log_record list \<Rightarrow> state" where
  "state_of result = fst (snd result)"

text \<open>
  What may happen to a booking record between two states: every field but the status is
  kept, and the status is kept or goes from active to cancelled. A registry evolves when
  every record it held is still there, at its place, changed at most so.
\<close>

definition booking_kept :: "Booking \<Rightarrow> Booking \<Rightarrow> bool" where
  "booking_kept b b' \<longleftrightarrow>
     b_id b' = b_id b \<and> b_venue_id b' = b_venue_id b \<and> b_user_ids b' = b_user_ids b \<and>
     b_reservation_code b' = b_reservation_code b \<and> b_created_at b' = b_created_at b \<and>
     (b_status b' = b_status b \<or> (b_status b = ''active'' \<and> b_status b' = ''cancelled''))"

fun registry_evolves :: "Booking list \<Rightarrow> Booking list \<Rightarrow> bool" where
  "registry_evolves [] B' = True"
| "registry_evolves (b # B) [] = False"
| "registry_evolves (b # B) (b' # B') = (booking_kept b b' \<and> registry_evolves B B')"

text \<open>
  The score as the design words it, with the category factor read in one direction
  only: a tag of the user occurs in the category of the venue.
\<close>

definition spec_category_match :: "string list \<Rightarrow> string \<Rightarrow> rat" where
  "spec_category_match tags category =
     (if list_ex (\<lambda>tag. sublist (lower tag) (lower category)) tags then 4 else 0)"

definition spec_score :: "nat \<Rightarrow> string list \<Rightarrow> string \<Rightarrow> rat" where
  "spec_score c tags category =
     min (of_nat c / 3) 3 + spec_category_match tags category + of_nat (min c 3)"

section \<open>A small directory to run the endpoints on\<close>

definition mk_user :: "string \<Rightarrow> string \<Rightarrow> string list \<Rightarrow> string \<times> User" where
  "mk_user uid name tags =
     (uid, \<lparr>u_id = uid, u_name = name, u_avatar = [], u_bio = [], u_interests = tags\<rparr>)"

definition mk_venue :: "string \<Rightarrow> string \<Rightarrow> string \<Rightarrow> string \<times> Venue" where
  "mk_venue vid name category =
     (vid, \<lparr>v_id = vid, v_name = name, v_category = category, v_description = [],
            v_image = [], v_address = []\<rparr>)"

definition demo :: directory where
  "demo =
     \<lparr>users_dict = [mk_user ''user_1'' ''Ann'' [''coffee''],
                    mk_user ''user_2'' ''Bob'' [''Food''],
                    mk_user ''user_3'' ''Cy'' [],
                    mk_user ''user_4'' ''Di'' [''coffee shops and bars'']],
      venues_dict = [mk_venue ''venue_1'' ''Blue Bottle'' ''Coffee Shop'',
                     mk_venue ''venue_2'' ''Osteria'' ''Restaurant'',
                     mk_venue ''venue_3'' ''Dive'' ''Bar'']\<rparr>"

definition world :: "nat \<Rightarrow> nat \<Rightarrow> env" where
  "world t r = \<lparr>now = t, randint = r, agent_now_iso = ''2024-05-01T12:00:0'' @ str_nat (t mod 10)\<rparr>"

definition toggle :: "string \<Rightarrow> string \<Rightarrow> InterestRequest" where
  "toggle user_id venue_id = \<lparr>req_user_id = user_id, req_venue_id = venue_id\<rparr>"

text \<open>Four users toggle their interest in the first venue, one after the other.\<close>

definition two_calls :: "(env \<times> InterestRequest) list" where
  "two_calls = [(world 1 1111, toggle ''user_1'' ''venue_1''),
                (world 2 2222, toggle ''user_2'' ''venue_1'')]"

definition three_calls :: "(env \<times> InterestRequest) list" where
  "three_calls = two_calls @ [(world 3 3333, toggle ''user_3'' ''venue_1'')]"

definition four_calls :: "(env \<times> InterestRequest) list" where
  "four_calls = three_calls @ [(world 4 4444, toggle ''user_4'' ''venue_1'')]"

text \<open>
  The third user's booking is cancelled when the first user leaves, and made again when
  the first user comes back and the draw is the same as before.
\<close>

definition five_calls :: "(env \<times> InterestRequest) list" where
  "five_calls = three_calls @ [(world 5 5555, toggle ''user_1'' ''venue_1'')]"

text \<open>A collaborator that raises whatever it is asked.\<close>

definition failing_agent :: "exn \<Rightarrow> agent" where
  "failing_agent x venue_id venue_name user_count interested_user_ids existing_bookings = Inl x"


section \<open>Facts about the scan for an active booking\<close>



lemma find_active_first:
  "find_active v B = (case filter (is_active_for v) B of [] \<Rightarrow> None | b # _ \<Rightarrow> Some b)"
  by (induction B) (auto simp: is_active_for_def)

section \<open>The booking trigger decides, and only decides\<close>



section \<open>Facts about the interest list\<close>

lemma pop_0 [simp]: "pop 0 (x # xs) = xs"
  by (simp add: pop_def)

lemma pop_Suc [simp]: "pop (Suc k) (x # xs) = x # pop k xs"
  by (simp add: pop_def)

lemma find_existing_None: "find_existing u v il = None \<longleftrightarrow> (u, v) \<notin> ledger il"
  by (induction il) (auto simp: ledger_def interest_key_def)

lemma find_existing_Some_in: "find_existing u v il = Some k \<Longrightarrow> (u, v) \<in> ledger il"
  using find_existing_None [of u v il] by auto

lemma find_existing_nth:
  "find_existing u v il = Some k \<Longrightarrow> k < length il \<and> interest_key (il ! k) = (u, v)"
  by (induction il arbitrary: k) (auto simp: interest_key_def split: if_splits)

lemma count_pop_same:
  "find_existing u v il = Some k \<Longrightarrow>
     Suc (get_interested_count (pop k il) v) = get_interested_count il v"
  by (induction il arbitrary: k) (auto simp: get_interested_count_def split: if_splits)

lemma count_pop_other:
  "find_existing u v il = Some k \<Longrightarrow> v' \<noteq> v \<Longrightarrow>
     get_interested_count (pop k il) v' = get_interested_count il v'"
  by (induction il arbitrary: k) (auto simp: get_interested_count_def split: if_splits)

lemma others_pop:
  "find_existing u v il = Some k \<Longrightarrow>
     filter (\<lambda>i. i_user_id i \<noteq> u) (pop k il) = filter (\<lambda>i. i_user_id i \<noteq> u) il"
  by (induction il arbitrary: k) (auto split: if_splits)

lemma unique_pop:
  "find_existing u v il = Some k \<Longrightarrow> unique_interests il \<Longrightarrow>
     unique_interests (pop k il) \<and> ledger (pop k il) = ledger il - {(u, v)}"
proof (induction il arbitrary: k)
  case Nil
  then show ?case by simp
next
  case (Cons x xs)
  show ?case
  proof (cases "i_user_id x = u \<and> i_venue_id x = v")
    case True
    with Cons.prems show ?thesis
      by (auto simp: unique_interests_def ledger_def interest_key_def)
  next
    case False
    with Cons.prems obtain j where j: "find_existing u v xs = Some j" "k = Suc j"
      by auto
    from Cons.prems have "unique_interests xs" by (simp add: unique_interests_def)
    from Cons.IH [OF j(1) this]
    have ih: "unique_interests (pop j xs)" "ledger (pop j xs) = ledger xs - {(u, v)}" by auto
    from Cons.prems have "interest_key x \<notin> ledger xs"
      by (simp add: unique_interests_def ledger_def)
    with ih False j(2) show ?thesis
      by (auto simp: unique_interests_def ledger_def interest_key_def)
  qed
qed

section \<open>Facts about cancelling\<close>

lemma cancel_active_same:
  "filter (is_active_for v) (cancel_active v B) = tl (filter (is_active_for v) B)"
  by (induction B) (auto simp: is_active_for_def)

lemma cancel_active_other:
  "v' \<noteq> v \<Longrightarrow> filter (is_active_for v') (cancel_active v B) = filter (is_active_for v') B"
  by (induction B) (auto simp: is_active_for_def)

lemma length_cancel_active [simp]: "length (cancel_active v B) = length B"
  by (induction B) auto

section \<open>What a call does, branch by branch\<close>

lemma try_block_live:
  "try_block (live_agent e) request name n ids B =
     (if n < 3 then (Inr InterestRecorded, B, [])
      else case find_active (req_venue_id request) B of
        Some b \<Rightarrow> (Inr (BookingAlreadyActive name (b_reservation_code b)), B,
                   [(INFO, ''Booking already exists for venue='' @ req_venue_id request)])
      | None \<Rightarrow> (Inr (BookingCreated (created_message n name)
                          (mint_code (req_venue_id request) (randint e))),
                 B @ [new_booking e (req_venue_id request) ids B],
                 [(INFO, ''Booking created: '' @ mint_booking_id B @ '' for venue=''
                     @ req_venue_id request @ '', count='' @ str_nat n)]))"
  by (simp add: try_block_def live_agent_def booking_agent_def empty_response_def
        InterestRecorded_def BookingAlreadyActive_def BookingCreated_def created_message_def
        mint_code_def mint_booking_id_def new_booking_def split: option.splits)

lemma try_block_raises:
  "agent (req_venue_id request) name n ids B = Inl x \<Longrightarrow>
     try_block agent request name n ids B = (Inl x, B, [])"
  by (simp add: try_block_def)

lemma toggle_on_interests:
  "interests_list (fst (snd (toggle_on agent t ven request s)))
     = interests_list s @ [new_interest t request]"
  by (simp add: toggle_on_def new_interest_def Let_def split: prod.splits sum.splits)

lemma toggle_off_interests:
  "interests_list (fst (snd (toggle_off ven request k s))) = pop k (interests_list s)"
  by (simp add: toggle_off_def Let_def)

lemma express_interest_with_interests:
  "interests_list (state_of (express_interest_with agent t d request s)) =
     (if map_of (users_dict d) (req_user_id request) = None
         \<or> map_of (venues_dict d) (req_venue_id request) = None
      then interests_list s
      else case find_existing (req_user_id request) (req_venue_id request) (interests_list s) of
             Some k \<Rightarrow> pop k (interests_list s)
           | None \<Rightarrow> interests_list s @ [new_interest t request])"
  by (simp add: express_interest_with_def state_of_def Let_def case_prod_beta
        toggle_on_interests toggle_off_interests split: option.splits)

lemma count_append_new:
  "get_interested_count (il @ [new_interest t request]) v =
     (if v = req_venue_id request then Suc (get_interested_count il v)
      else get_interested_count il v)"
  by (simp add: get_interested_count_def new_interest_def)

lemma toggle_on_live:
  "toggle_on (live_agent e) t ven request s =
     (let il' = interests_list s @ [new_interest t request];
          v = req_venue_id request;
          n = Suc (get_interested_count (interests_list s) v);
          B = bookings_list s;
          log1 = (INFO, ''Interest added: user='' @ req_user_id request @ '', venue='' @ v)
      in if n < 3 then (InterestRecorded, \<lparr>interests_list = il', bookings_list = B\<rparr>, [log1])
         else case find_active v B of
           Some b \<Rightarrow> (BookingAlreadyActive (v_name ven) (b_reservation_code b),
                      \<lparr>interests_list = il', bookings_list = B\<rparr>,
                      [log1, (INFO, ''Booking already exists for venue='' @ v)])
         | None \<Rightarrow> (BookingCreated (created_message n (v_name ven)) (mint_code v (randint e)),
                    \<lparr>interests_list = il',
                     bookings_list = B @ [new_booking e v (interested_user_ids_of il' v) B]\<rparr>,
                    [log1, (INFO, ''Booking created: '' @ mint_booking_id B @ '' for venue=''
                       @ v @ '', count='' @ str_nat n)]))"
  by (simp add: toggle_on_def try_block_live Let_def new_interest_def get_interested_count_def
        interested_user_ids_of_def split: option.splits)

lemma toggle_off_eq:
  "toggle_off ven request k s =
     (let il' = pop k (interests_list s);
          v = req_venue_id request;
          n = get_interested_count il' v;
          B = bookings_list s;
          log1 = (INFO, ''Interest removed: user='' @ req_user_id request @ '', venue='' @ v)
      in if find_active v B \<noteq> None \<and> n < 3
         then (BookingCancelled, \<lparr>interests_list = il', bookings_list = cancel_active v B\<rparr>,
               [log1, (INFO, ''Booking cancelled for venue='' @ v @ '', count dropped to ''
                        @ str_nat n)])
         else (InterestRemoved (v_name ven), \<lparr>interests_list = il', bookings_list = B\<rparr>, [log1]))"
  by (simp add: toggle_off_def Let_def BookingCancelled_def InterestRemoved_def)

lemma find_active_abf:
  "find_active v B = (case active_bookings_for v B of [] \<Rightarrow> None | b # _ \<Rightarrow> Some b)"
  by (simp add: find_active_first active_bookings_for_def)

lemma find_active_None_abf: "find_active v B = None \<longleftrightarrow> active_bookings_for v B = []"
  by (simp add: find_active_abf split: list.splits)

lemma abf_cancel_same:
  "active_bookings_for v (cancel_active v B) = tl (active_bookings_for v B)"
  by (simp add: active_bookings_for_def cancel_active_same)

lemma abf_cancel_other:
  "v' \<noteq> v \<Longrightarrow> active_bookings_for v' (cancel_active v B) = active_bookings_for v' B"
  by (simp add: active_bookings_for_def cancel_active_other)

lemma abf_append_new:
  "active_bookings_for v' (B @ [new_booking e v ids B']) =
     (if v' = v then active_bookings_for v' B @ [new_booking e v ids B']
      else active_bookings_for v' B)"
  by (auto simp: active_bookings_for_def is_active_for_def new_booking_def)

lemma express_interest_state:
  "state_of (express_interest d e request s) =
     (case map_of (users_dict d) (req_user_id request) of None \<Rightarrow> s | Some usr \<Rightarrow>
      case map_of (venues_dict d) (req_venue_id request) of None \<Rightarrow> s | Some ven \<Rightarrow>
      case find_existing (req_user_id request) (req_venue_id request) (interests_list s) of
        Some k \<Rightarrow> fst (snd (toggle_off ven request k s))
      | None \<Rightarrow> fst (snd (toggle_on (live_agent e) (now e) ven request s)))"
  by (simp add: express_interest_def express_interest_with_def state_of_def Let_def
        case_prod_beta split: option.splits)

lemma express_interest_response:
  "response_of (express_interest d e request s) =
     (case map_of (users_dict d) (req_user_id request) of
        None \<Rightarrow> Inl (HTTPException 404
                  (''User with id '' @ [CHR 0x27] @ req_user_id request @ [CHR 0x27]
                     @ '' not found''))
      | Some usr \<Rightarrow>
      case map_of (venues_dict d) (req_venue_id request) of
        None \<Rightarrow> Inl (HTTPException 404
                  (''Venue with id '' @ [CHR 0x27] @ req_venue_id request @ [CHR 0x27]
                     @ '' not found''))
      | Some ven \<Rightarrow>
      case find_existing (req_user_id request) (req_venue_id request) (interests_list s) of
        Some k \<Rightarrow> Inr (fst (toggle_off ven request k s))
      | None \<Rightarrow> Inr (fst (toggle_on (live_agent e) (now e) ven request s)))"
  by (simp add: express_interest_def express_interest_with_def response_of_def Let_def
        case_prod_beta split: option.splits)

section \<open>The invariant of the two lists\<close>

lemma consistentI:
  assumes "\<And>v. length (active_bookings_for v B) \<le> 1"
    and "\<And>v. active_bookings_for v B \<noteq> [] \<Longrightarrow> 3 \<le> get_interested_count il v"
  shows "consistent \<lparr>interests_list = il, bookings_list = B\<rparr>"
  using assms by (simp add: consistent_def)

lemma consistent_toggle_off:
  assumes c: "consistent s"
    and k: "find_existing (req_user_id request) (req_venue_id request) (interests_list s) = Some k"
  shows "consistent (fst (snd (toggle_off ven request k s)))"
proof -
  let ?v = "req_venue_id request"
  let ?il = "interests_list s" and ?B = "bookings_list s"
  have cnt: "Suc (get_interested_count (pop k ?il) ?v) = get_interested_count ?il ?v"
    using count_pop_same [OF k] .
  have oth: "get_interested_count (pop k ?il) v' = get_interested_count ?il v'" if "v' \<noteq> ?v" for v'
    using count_pop_other [OF k that] .
  from c have c1: "length (active_bookings_for v ?B) \<le> 1" for v
    by (simp add: consistent_def)
  from c have c2: "3 \<le> get_interested_count ?il v" if "active_bookings_for v ?B \<noteq> []" for v
    using that by (simp add: consistent_def)
  show ?thesis
  proof (cases "find_active ?v ?B \<noteq> None \<and> get_interested_count (pop k ?il) ?v < 3")
    case True
    then have st: "fst (snd (toggle_off ven request k s))
        = \<lparr>interests_list = pop k ?il, bookings_list = cancel_active ?v ?B\<rparr>"
      by (simp add: toggle_off_eq Let_def)
    have gone: "active_bookings_for ?v (cancel_active ?v ?B) = []"
      using c1 [of ?v] by (cases "active_bookings_for ?v ?B") (simp_all add: abf_cancel_same)
    show ?thesis unfolding st
    proof (rule consistentI)
      fix v show "length (active_bookings_for v (cancel_active ?v ?B)) \<le> 1"
        using c1 [of v] gone by (cases "v = ?v") (simp_all add: abf_cancel_other)
    next
      fix v assume a: "active_bookings_for v (cancel_active ?v ?B) \<noteq> []"
      with gone have ne: "v \<noteq> ?v" by auto
      with a have "active_bookings_for v ?B \<noteq> []" by (simp add: abf_cancel_other)
      from c2 [OF this] oth [OF ne] show "3 \<le> get_interested_count (pop k ?il) v" by simp
    qed
  next
    case False
    then have st: "fst (snd (toggle_off ven request k s))
        = \<lparr>interests_list = pop k ?il, bookings_list = ?B\<rparr>"
      by (auto simp: toggle_off_eq Let_def)
    show ?thesis unfolding st
    proof (rule consistentI)
      fix v show "length (active_bookings_for v ?B) \<le> 1" by (rule c1)
    next
      fix v assume a: "active_bookings_for v ?B \<noteq> []"
      show "3 \<le> get_interested_count (pop k ?il) v"
      proof (cases "v = ?v")
        case True
        with a have "find_active ?v ?B \<noteq> None" by (simp add: find_active_None_abf)
        with False True show ?thesis by simp
      next
        case ne: False
        from c2 [OF a] oth [OF ne] show ?thesis by simp
      qed
    qed
  qed
qed

lemma consistent_toggle_on:
  assumes c: "consistent s"
  shows "consistent (fst (snd (toggle_on (live_agent e) t ven request s)))"
proof -
  let ?v = "req_venue_id request"
  let ?il = "interests_list s" and ?B = "bookings_list s"
  let ?il' = "?il @ [new_interest t request]"
  from c have c1: "length (active_bookings_for v ?B) \<le> 1" for v
    by (simp add: consistent_def)
  from c have c2: "3 \<le> get_interested_count ?il v" if "active_bookings_for v ?B \<noteq> []" for v
    using that by (simp add: consistent_def)
  have mono: "get_interested_count ?il v \<le> get_interested_count ?il' v" for v
    by (simp add: count_append_new)
  show ?thesis
  proof (cases "Suc (get_interested_count ?il ?v) < 3 \<or> find_active ?v ?B \<noteq> None")
    case True
    then have st: "fst (snd (toggle_on (live_agent e) t ven request s))
        = \<lparr>interests_list = ?il', bookings_list = ?B\<rparr>"
      by (auto simp: toggle_on_live Let_def split: option.splits)
    show ?thesis unfolding st
    proof (rule consistentI)
      fix v show "length (active_bookings_for v ?B) \<le> 1" by (rule c1)
    next
      fix v assume "active_bookings_for v ?B \<noteq> []"
      from c2 [OF this] mono [of v] show "3 \<le> get_interested_count ?il' v" by simp
    qed
  next
    case False
    then have n: "3 \<le> Suc (get_interested_count ?il ?v)" and na: "active_bookings_for ?v ?B = []"
      by (auto simp: find_active_None_abf)
    from False have st: "fst (snd (toggle_on (live_agent e) t ven request s))
        = \<lparr>interests_list = ?il',
           bookings_list = ?B @ [new_booking e ?v (interested_user_ids_of ?il' ?v) ?B]\<rparr>"
      by (auto simp: toggle_on_live Let_def split: option.splits)
    show ?thesis unfolding st
    proof (rule consistentI)
      fix v show "length (active_bookings_for v
          (?B @ [new_booking e ?v (interested_user_ids_of ?il' ?v) ?B])) \<le> 1"
        using c1 [of v] na by (cases "v = ?v") (simp_all add: abf_append_new)
    next
      fix v assume a: "active_bookings_for v
          (?B @ [new_booking e ?v (interested_user_ids_of ?il' ?v) ?B]) \<noteq> []"
      show "3 \<le> get_interested_count ?il' v"
      proof (cases "v = ?v")
        case True
        with n show ?thesis by (simp add: count_append_new)
      next
        case False
        with a have "active_bookings_for v ?B \<noteq> []" by (simp add: abf_append_new)
        from c2 [OF this] mono [of v] show ?thesis by simp
      qed
    qed
  qed
qed

lemma consistent_step: "consistent s \<Longrightarrow> consistent (state_of (express_interest d e request s))"
  by (simp add: express_interest_state consistent_toggle_on consistent_toggle_off
        split: option.splits)

lemma consistent_run: "consistent s \<Longrightarrow> consistent (run d s calls)"
proof (induction calls arbitrary: s)
  case Nil
  then show ?case by simp
next
  case (Cons c calls)
  obtain e request where c: "c = (e, request)" by (cases c)
  from Cons.prems have "consistent (state_of (express_interest d e request s))"
    by (rule consistent_step)
  then have "consistent (run d (state_of (express_interest d e request s)) calls)"
    by (rule Cons.IH)
  then show ?case by (simp add: c state_of_def)
qed

lemma consistent_initial: "consistent (initial il)"
  by (simp add: consistent_def initial_def active_bookings_for_def)

section \<open>No venue has two active bookings\<close>

lemma one_active_step:
  assumes "length (active_bookings_for v (bookings_list s)) \<le> 1"
  shows "length (active_bookings_for v
           (bookings_list (state_of (express_interest d e request s)))) \<le> 1"
proof -
  let ?v = "req_venue_id request" and ?B = "bookings_list s"
  have off: "length (active_bookings_for v (cancel_active ?v ?B)) \<le> 1"
    using assms by (cases "v = ?v") (simp_all add: abf_cancel_same abf_cancel_other)
  have on: "length (active_bookings_for v (?B @ [new_booking e ?v ids ?B])) \<le> 1"
    if "find_active ?v ?B = None" for ids
    using assms that by (cases "v = ?v") (simp_all add: abf_append_new find_active_None_abf)
  show ?thesis
    using assms off on
    by (simp add: express_interest_state toggle_on_live toggle_off_eq Let_def
          split: option.splits)
qed

lemma demo_three_one:
  "length (active_bookings_for ''venue_1'' (bookings_list (run demo (initial []) three_calls))) \<le> 1"
  by code_simp

text \<open>
  C5. From the initial state, with its empty list of bookings and whatever interests
  data.py holds, every sequence of calls of the endpoint leads to a state in which a
  venue has at most one active booking; and a single call, from any state, keeps the
  bound of every venue.
\<close>

theorem one_active_booking_per_venue:
  "length (active_bookings_for v (bookings_list (run d (initial il) calls))) \<le> 1 \<and>
   (length (active_bookings_for v (bookings_list s)) \<le> 1 \<longrightarrow>
      length (active_bookings_for v
        (bookings_list (state_of (express_interest d e request s)))) \<le> 1)"
proof
  have "consistent (run d (initial il) calls)"
    by (rule consistent_run) (rule consistent_initial)
  then show "length (active_bookings_for v (bookings_list (run d (initial il) calls))) \<le> 1"
    by (simp add: consistent_def)
next
  show "length (active_bookings_for v (bookings_list s)) \<le> 1 \<longrightarrow>
      length (active_bookings_for v
        (bookings_list (state_of (express_interest d e request s)))) \<le> 1"
    using one_active_step by blast
qed

theorem one_active_booking_per_venue_witness:
  "length (active_bookings_for ''venue_1''
      (bookings_list (run demo (initial []) four_calls))) \<le> 1 \<and>
   length (active_bookings_for ''venue_1''
      (bookings_list (run demo (initial []) three_calls))) \<le> 1 \<and>
   length (active_bookings_for ''venue_1''
      (bookings_list (state_of (express_interest demo (world 4 4444)
         (toggle ''user_4'' ''venue_1'') (run demo (initial []) three_calls))))) \<le> 1"
  using one_active_booking_per_venue [where v = "''venue_1''" and d = demo and il = "[]"
      and calls = four_calls and s = "run demo (initial []) three_calls"
      and e = "world 4 4444" and request = "toggle ''user_4'' ''venue_1''"]
    demo_three_one
  by blast

section \<open>Toggling on\<close>

lemma ledger_append_new:
  "ledger (il @ [new_interest t request]) = insert (req_user_id request, req_venue_id request) (ledger il)"
  by (simp add: ledger_def new_interest_def interest_key_def)

lemma toggle_sel [simp]: "req_user_id (toggle u v) = u" "req_venue_id (toggle u v) = v"
  by (simp_all add: toggle_def)

lemma reachable_consistent: "consistent (run d (initial il) calls)"
  by (rule consistent_run) (rule consistent_initial)




lemma demo_user_3: "map_of (users_dict demo) ''user_3'' = Some (snd (mk_user ''user_3'' ''Cy'' []))"
  by (simp add: demo_def mk_user_def)

lemma demo_user_4:
  "map_of (users_dict demo) ''user_4'' = Some (snd (mk_user ''user_4'' ''Di'' [''coffee shops and bars'']))"
  by (simp add: demo_def mk_user_def)

lemma demo_venue_1:
  "map_of (venues_dict demo) ''venue_1'' = Some (snd (mk_venue ''venue_1'' ''Blue Bottle'' ''Coffee Shop''))"
  by (simp add: demo_def mk_venue_def)

lemma demo_two_ledger:
  "ledger (interests_list (run demo (initial []) two_calls))
     = {(''user_1'', ''venue_1''), (''user_2'', ''venue_1'')}"
  by code_simp



section \<open>Toggling off\<close>

lemma find_active_cancel:
  "length (active_bookings_for v B) \<le> 1 \<Longrightarrow> find_active v (cancel_active v B) = None"
  by (cases "active_bookings_for v B") (simp_all add: find_active_None_abf abf_cancel_same)

lemma registry_evolves_refl: "registry_evolves B B"
  by (induction B) (simp_all add: booking_kept_def)

lemma registry_evolves_append: "registry_evolves B (B @ C)"
  by (induction B) (simp_all add: booking_kept_def)

lemma registry_evolves_cancel: "registry_evolves B (cancel_active v B)"
  by (induction B) (simp_all add: booking_kept_def registry_evolves_refl)

lemma cancel_active_decomp:
  "find_active v B = Some b \<Longrightarrow>
     \<exists>B1 B2. B = B1 @ b # B2 \<and> \<not> list_ex (is_active_for v) B1 \<and>
       cancel_active v B = B1 @ b\<lparr>b_status := ''cancelled''\<rparr> # B2"
proof (induction B)
  case Nil
  then show ?case by simp
next
  case (Cons x xs)
  show ?case
  proof (cases "b_venue_id x = v \<and> b_status x = ''active''")
    case True
    with Cons.prems have "x = b" by simp
    with True have "x # xs = [] @ b # xs \<and> \<not> list_ex (is_active_for v) [] \<and>
       cancel_active v (x # xs) = [] @ b\<lparr>b_status := ''cancelled''\<rparr> # xs"
      by simp
    then show ?thesis by blast
  next
    case False
    with Cons.prems have "find_active v xs = Some b" by simp
    from Cons.IH [OF this] obtain B1 B2 where
      "xs = B1 @ b # B2" "\<not> list_ex (is_active_for v) B1"
      "cancel_active v xs = B1 @ b\<lparr>b_status := ''cancelled''\<rparr> # B2"
      by blast
    with False have "x # xs = (x # B1) @ b # B2 \<and> \<not> list_ex (is_active_for v) (x # B1) \<and>
       cancel_active v (x # xs) = (x # B1) @ b\<lparr>b_status := ''cancelled''\<rparr> # B2"
      by (auto simp: is_active_for_def)
    then show ?thesis by blast
  qed
qed

lemma toggle_off_general:
  fixes d e u v s
  defines "r \<equiv> express_interest d e (toggle u v) s"
  defines "n \<equiv> get_interested_count (interests_list (state_of r)) v"
  assumes c: "consistent s"
    and u: "map_of (users_dict d) u = Some usr"
    and v: "map_of (venues_dict d) v = Some ven"
    and k: "find_existing u v (interests_list s) = Some k"
  shows "interests_list (state_of r) = pop k (interests_list s)"
    and "Suc n = get_interested_count (interests_list s) v"
    and "find_active v (bookings_list s) = Some b \<Longrightarrow> n < 3 \<Longrightarrow>
           response_of r = Inr BookingCancelled \<and>
           bookings_list (state_of r) = cancel_active v (bookings_list s) \<and>
           get_venue_booking d (state_of r) v = Inr None"
    and "find_active v (bookings_list s) = None \<or> 3 \<le> n \<Longrightarrow>
           response_of r = Inr (InterestRemoved (v_name ven)) \<and>
           bookings_list (state_of r) = bookings_list s"
proof -
  have st: "state_of r = fst (snd (toggle_off ven (toggle u v) k s))"
    by (simp add: r_def express_interest_state u v k)
  have rs: "response_of r = Inr (fst (toggle_off ven (toggle u v) k s))"
    by (simp add: r_def express_interest_response u v k)
  show il: "interests_list (state_of r) = pop k (interests_list s)"
    by (simp add: st toggle_off_interests)
  show "Suc n = get_interested_count (interests_list s) v"
    unfolding n_def il using count_pop_same [OF k] .
  have n: "n = get_interested_count (pop k (interests_list s)) v"
    by (simp add: n_def il)
  from c have one: "length (active_bookings_for v (bookings_list s)) \<le> 1"
    by (simp add: consistent_def)
  show "find_active v (bookings_list s) = Some b \<Longrightarrow> n < 3 \<Longrightarrow>
           response_of r = Inr BookingCancelled \<and>
           bookings_list (state_of r) = cancel_active v (bookings_list s) \<and>
           get_venue_booking d (state_of r) v = Inr None"
    using find_active_cancel [OF one]
    by (simp add: st rs toggle_off_eq Let_def n get_venue_booking_def v)
  show "find_active v (bookings_list s) = None \<or> 3 \<le> n \<Longrightarrow>
           response_of r = Inr (InterestRemoved (v_name ven)) \<and>
           bookings_list (state_of r) = bookings_list s"
    by (auto simp: st rs toggle_off_eq Let_def n)
qed

text \<open>
  C2. In a state reached from the start by any calls, for a user and a venue of the
  directory with an interest of the user in the venue recorded, the call removes one
  entry of the interest list, the first one of that user and venue, so that the count of
  the venue drops by one (and the pair leaves the ledger when pairs are recorded at most
  once). If the venue has an active booking and the new count is below 3, the answer is
  BookingCancelled, that booking stays at its place with the status cancelled and all
  else as before, and the venue has no active booking to return. Otherwise the answer
  is InterestRemoved and the list of bookings is as before.
\<close>

theorem toggle_off_outcome:
  fixes d e u v il calls
  defines "s \<equiv> run d (initial il) calls"
  defines "r \<equiv> express_interest d e (toggle u v) s"
  defines "n \<equiv> get_interested_count (interests_list (state_of r)) v"
  assumes u: "map_of (users_dict d) u = Some usr"
    and v: "map_of (venues_dict d) v = Some ven"
    and held: "(u, v) \<in> ledger (interests_list s)"
  shows "(\<exists>k<length (interests_list s). interest_key (interests_list s ! k) = (u, v) \<and>
            interests_list (state_of r) = pop k (interests_list s)) \<and>
    Suc n = get_interested_count (interests_list s) v \<and>
    (unique_interests (interests_list s) \<longrightarrow>
       ledger (interests_list (state_of r)) = ledger (interests_list s) - {(u, v)}) \<and>
    (\<forall>b. find_active v (bookings_list s) = Some b \<and> n < 3 \<longrightarrow>
       response_of r = Inr BookingCancelled \<and>
       (\<exists>B1 B2. bookings_list s = B1 @ b # B2 \<and>
          bookings_list (state_of r) = B1 @ b\<lparr>b_status := ''cancelled''\<rparr> # B2) \<and>
       get_venue_booking d (state_of r) v = Inr None) \<and>
    (find_active v (bookings_list s) = None \<or> 3 \<le> n \<longrightarrow>
       response_of r = Inr (InterestRemoved (v_name ven)) \<and>
       bookings_list (state_of r) = bookings_list s)"
proof -
  have c: "consistent s" unfolding s_def by (rule reachable_consistent)
  from held obtain k where k: "find_existing u v (interests_list s) = Some k"
    using find_existing_None [of u v "interests_list s"] by (cases "find_existing u v (interests_list s)") auto
  note g = toggle_off_general [OF c u v k, where e = e, folded r_def]
  have il: "interests_list (state_of r) = pop k (interests_list s)" by (rule g(1))
  have 1: "\<exists>k<length (interests_list s). interest_key (interests_list s ! k) = (u, v) \<and>
            interests_list (state_of r) = pop k (interests_list s)"
    using find_existing_nth [OF k] il by blast
  have 2: "Suc n = get_interested_count (interests_list s) v"
    using g(2) by (simp add: n_def)
  have 3: "unique_interests (interests_list s) \<longrightarrow>
       ledger (interests_list (state_of r)) = ledger (interests_list s) - {(u, v)}"
    using unique_pop [OF k] il by simp
  have 4: "\<forall>b. find_active v (bookings_list s) = Some b \<and> n < 3 \<longrightarrow>
       response_of r = Inr BookingCancelled \<and>
       (\<exists>B1 B2. bookings_list s = B1 @ b # B2 \<and>
          bookings_list (state_of r) = B1 @ b\<lparr>b_status := ''cancelled''\<rparr> # B2) \<and>
       get_venue_booking d (state_of r) v = Inr None"
  proof (intro allI impI)
    fix b assume a: "find_active v (bookings_list s) = Some b \<and> n < 3"
    then have fa: "find_active v (bookings_list s) = Some b" and n3: "n < 3" by simp_all
    from g(3) [OF fa] n3 have
      r: "response_of r = Inr BookingCancelled"
      and bl: "bookings_list (state_of r) = cancel_active v (bookings_list s)"
      and gv: "get_venue_booking d (state_of r) v = Inr None"
      by (simp_all add: n_def)
    from cancel_active_decomp [OF fa] bl
    have "\<exists>B1 B2. bookings_list s = B1 @ b # B2 \<and>
          bookings_list (state_of r) = B1 @ b\<lparr>b_status := ''cancelled''\<rparr> # B2"
      by auto
    with r gv show "response_of r = Inr BookingCancelled \<and>
       (\<exists>B1 B2. bookings_list s = B1 @ b # B2 \<and>
          bookings_list (state_of r) = B1 @ b\<lparr>b_status := ''cancelled''\<rparr> # B2) \<and>
       get_venue_booking d (state_of r) v = Inr None"
      by blast
  qed
  have 5: "find_active v (bookings_list s) = None \<or> 3 \<le> n \<longrightarrow>
       response_of r = Inr (InterestRemoved (v_name ven)) \<and>
       bookings_list (state_of r) = bookings_list s"
    using g(4) by (simp add: n_def)
  from 1 2 3 4 5 show ?thesis by blast
qed

lemma demo_user_1: "map_of (users_dict demo) ''user_1'' = Some (snd (mk_user ''user_1'' ''Ann'' [''coffee'']))"
  by (simp add: demo_def mk_user_def)

lemma demo_three_ledger:
  "ledger (interests_list (run demo (initial []) three_calls))
     = {(''user_1'', ''venue_1''), (''user_2'', ''venue_1''), (''user_3'', ''venue_1'')}"
  by code_simp

lemma demo_three_active:
  "find_active ''venue_1'' (bookings_list (run demo (initial []) three_calls)) \<noteq> None"
  by code_simp

lemma demo_three_off_count:
  "get_interested_count (interests_list (state_of (express_interest demo (world 5 5555)
      (toggle ''user_1'' ''venue_1'') (run demo (initial []) three_calls)))) ''venue_1'' < 3"
  by code_simp

theorem toggle_off_outcome_witness:
  "map_of (users_dict demo) ''user_1'' = Some (snd (mk_user ''user_1'' ''Ann'' [''coffee''])) \<and>
   map_of (venues_dict demo) ''venue_1''
     = Some (snd (mk_venue ''venue_1'' ''Blue Bottle'' ''Coffee Shop'')) \<and>
   (''user_1'', ''venue_1'') \<in> ledger (interests_list (run demo (initial []) three_calls)) \<and>
   response_of (express_interest demo (world 5 5555) (toggle ''user_1'' ''venue_1'')
      (run demo (initial []) three_calls)) = Inr BookingCancelled \<and>
   get_venue_booking demo
      (state_of (express_interest demo (world 5 5555) (toggle ''user_1'' ''venue_1'')
         (run demo (initial []) three_calls))) ''venue_1'' = Inr None"
proof -
  have held: "(''user_1'', ''venue_1'') \<in> ledger (interests_list (run demo (initial []) three_calls))"
    by (simp add: demo_three_ledger)
  from demo_three_active obtain b where
    b: "find_active ''venue_1'' (bookings_list (run demo (initial []) three_calls)) = Some b"
    by blast
  from toggle_off_outcome [OF demo_user_1 demo_venue_1 held, where e = "world 5 5555"]
    b demo_three_off_count
  have "response_of (express_interest demo (world 5 5555) (toggle ''user_1'' ''venue_1'')
      (run demo (initial []) three_calls)) = Inr BookingCancelled \<and>
   get_venue_booking demo
      (state_of (express_interest demo (world 5 5555) (toggle ''user_1'' ''venue_1'')
         (run demo (initial []) three_calls))) ''venue_1'' = Inr None"
    by blast
  with demo_user_1 demo_venue_1 held show ?thesis by blast
qed

section \<open>Toggling twice\<close>

lemma step_interests:
  assumes "map_of (users_dict d) u = Some usr" "map_of (venues_dict d) v = Some ven"
  shows "interests_list (state_of (express_interest_with agent t d (toggle u v) s)) =
     (case find_existing u v (interests_list s) of
        Some k \<Rightarrow> pop k (interests_list s)
      | None \<Rightarrow> interests_list s @ [new_interest t (toggle u v)])"
  using assms by (simp add: express_interest_with_interests)

lemma unique_append_new:
  "unique_interests il \<Longrightarrow> (u, v) \<notin> ledger il \<Longrightarrow>
     unique_interests (il @ [new_interest t (toggle u v)])"
  by (simp add: unique_interests_def ledger_def new_interest_def interest_key_def)

lemma toggle_twice:
  assumes u: "map_of (users_dict d) u = Some usr"
    and v: "map_of (venues_dict d) v = Some ven"
    and uniq: "unique_interests (interests_list s)"
  shows "ledger (interests_list (state_of (express_interest_with agent2 t2 d (toggle u v)
            (state_of (express_interest_with agent1 t1 d (toggle u v) s)))))
         = ledger (interests_list s) \<and>
         unique_interests (interests_list (state_of (express_interest_with agent2 t2 d (toggle u v)
            (state_of (express_interest_with agent1 t1 d (toggle u v) s)))))"
proof -
  let ?il = "interests_list s"
  let ?s1 = "state_of (express_interest_with agent1 t1 d (toggle u v) s)"
  let ?s2 = "state_of (express_interest_with agent2 t2 d (toggle u v) ?s1)"
  note i1 = step_interests [OF u v, of agent1 t1 s]
  note i2 = step_interests [OF u v, of agent2 t2 ?s1]
  show ?thesis
  proof (cases "find_existing u v ?il")
    case None
    then have nin: "(u, v) \<notin> ledger ?il" by (simp add: find_existing_None)
    from None i1 have il1: "interests_list ?s1 = ?il @ [new_interest t1 (toggle u v)]" by simp
    have u1: "unique_interests (interests_list ?s1)"
      unfolding il1 by (rule unique_append_new [OF uniq nin])
    have "(u, v) \<in> ledger (interests_list ?s1)"
      by (simp add: il1 ledger_append_new)
    then obtain k where k: "find_existing u v (interests_list ?s1) = Some k"
      using find_existing_None [of u v "interests_list ?s1"]
      by (cases "find_existing u v (interests_list ?s1)") auto
    with i2 have il2: "interests_list ?s2 = pop k (interests_list ?s1)" by simp
    from unique_pop [OF k u1] nin show ?thesis
      by (simp add: il2) (simp add: il1 ledger_append_new)
  next
    case (Some k)
    with i1 have il1: "interests_list ?s1 = pop k ?il" by simp
    from unique_pop [OF Some uniq]
    have u1: "unique_interests (pop k ?il)" and l1: "ledger (pop k ?il) = ledger ?il - {(u, v)}"
      by simp_all
    from l1 have nin: "(u, v) \<notin> ledger (interests_list ?s1)" by (simp add: il1)
    then have "find_existing u v (interests_list ?s1) = None" by (simp add: find_existing_None)
    with i2 have il2: "interests_list ?s2 = interests_list ?s1 @ [new_interest t2 (toggle u v)]"
      by simp
    have "(u, v) \<in> ledger ?il" by (rule find_existing_Some_in [OF Some])
    then have "ledger (interests_list ?s2) = ledger ?il"
      by (auto simp: il2 ledger_append_new il1 l1)
    moreover have "unique_interests (interests_list ?s2)"
      unfolding il2 using u1 nin by (intro unique_append_new) (simp_all add: il1)
    ultimately show ?thesis by simp
  qed
qed

text \<open>
  C9. For a user and a venue of the directory, in a state whose interest list records
  every (user, venue) pair at most once, two calls of the endpoint for that user and
  venue, one after the other, leave the set of recorded pairs as it was (and every pair
  still recorded at most once). This holds whatever the clock, the random draws and the
  collaborator do in the two calls.
\<close>

theorem toggle_twice_restores_ledger:
  assumes "map_of (users_dict d) u = Some usr"
    and "map_of (venues_dict d) v = Some ven"
    and "unique_interests (interests_list s)"
  shows "ledger (interests_list (state_of (express_interest d e2 (toggle u v)
            (state_of (express_interest d e1 (toggle u v) s)))))
         = ledger (interests_list s) \<and>
         ledger (interests_list (state_of (express_interest_with agent2 t2 d (toggle u v)
            (state_of (express_interest_with agent1 t1 d (toggle u v) s)))))
         = ledger (interests_list s) \<and>
         unique_interests (interests_list (state_of (express_interest_with agent2 t2 d (toggle u v)
            (state_of (express_interest_with agent1 t1 d (toggle u v) s)))))"
  using toggle_twice [OF assms, of "live_agent e2" "now e2" "live_agent e1" "now e1"]
    toggle_twice [OF assms, of agent2 t2 agent1 t1]
  by (simp add: express_interest_def)

lemma demo_three_unique: "unique_interests (interests_list (run demo (initial []) three_calls))"
  by code_simp

theorem toggle_twice_restores_ledger_witness:
  "map_of (users_dict demo) ''user_1'' = Some (snd (mk_user ''user_1'' ''Ann'' [''coffee''])) \<and>
   map_of (venues_dict demo) ''venue_1''
     = Some (snd (mk_venue ''venue_1'' ''Blue Bottle'' ''Coffee Shop'')) \<and>
   unique_interests (interests_list (run demo (initial []) three_calls)) \<and>
   ledger (interests_list (state_of (express_interest demo (world 6 6666)
        (toggle ''user_1'' ''venue_1'')
        (state_of (express_interest demo (world 5 5555) (toggle ''user_1'' ''venue_1'')
           (run demo (initial []) three_calls))))))
     = {(''user_1'', ''venue_1''), (''user_2'', ''venue_1''), (''user_3'', ''venue_1'')}"
  using toggle_twice_restores_ledger [OF demo_user_1 demo_venue_1 demo_three_unique,
      where ?e1.0 = "world 5 5555" and ?e2.0 = "world 6 6666"]
    demo_user_1 demo_venue_1 demo_three_unique demo_three_ledger
  by simp

section \<open>A collaborator that fails\<close>

text \<open>
  C8. When the collaborator raises during a toggle-on, the call still answers with
  success and the response of InterestRecorded (no error reaches the caller); the new
  interest stays in the list, the list of bookings is as before, and the log holds an
  ERROR record with the text of the exception.
\<close>

theorem collaborator_fault_recovered:
  fixes agent t d u v s
  defines "il' \<equiv> interests_list s @ [new_interest t (toggle u v)]"
  assumes u: "map_of (users_dict d) u = Some usr"
    and v: "map_of (venues_dict d) v = Some ven"
    and fresh: "(u, v) \<notin> ledger (interests_list s)"
    and raises: "agent v (v_name ven) (length (interested_user_ids_of il' v))
                   (interested_user_ids_of il' v) (bookings_list s) = Inl x"
  shows "express_interest_with agent t d (toggle u v) s =
     (Inr InterestRecorded,
      \<lparr>interests_list = il', bookings_list = bookings_list s\<rparr>,
      [(INFO, ''Express interest request: user='' @ u @ '', venue='' @ v),
       (INFO, ''Interest added: user='' @ u @ '', venue='' @ v),
       (ERROR, ''Booking agent error: '' @ str_exn x)])"
proof -
  from fresh have fe: "find_existing u v (interests_list s) = None"
    by (simp add: find_existing_None)
  have tb: "try_block agent (toggle u v) (v_name ven) (length (interested_user_ids_of il' v))
      (interested_user_ids_of il' v) (bookings_list s) = (Inl x, bookings_list s, [])"
    by (rule try_block_raises) (simp add: raises)
  have "toggle_on agent t ven (toggle u v) s =
     (InterestRecorded, \<lparr>interests_list = il', bookings_list = bookings_list s\<rparr>,
      [(INFO, ''Interest added: user='' @ u @ '', venue='' @ v),
       (ERROR, ''Booking agent error: '' @ str_exn x)])"
    using tb
    by (simp add: toggle_on_def Let_def il'_def interested_user_ids_of_def new_interest_def
          InterestRecorded_def)
  then show ?thesis
    by (simp add: express_interest_with_def Let_def u v fe)
qed

lemma demo_two_on_ids:
  "interested_user_ids_of (interests_list (run demo (initial []) two_calls)
       @ [new_interest 3 (toggle ''user_3'' ''venue_1'')]) ''venue_1''
     = [''user_1'', ''user_2'', ''user_3'']"
  by code_simp

lemma demo_two_bookings: "bookings_list (run demo (initial []) two_calls) = []"
  by code_simp

theorem collaborator_fault_recovered_witness:
  "map_of (users_dict demo) ''user_3'' = Some (snd (mk_user ''user_3'' ''Cy'' [])) \<and>
   map_of (venues_dict demo) ''venue_1''
     = Some (snd (mk_venue ''venue_1'' ''Blue Bottle'' ''Coffee Shop'')) \<and>
   (''user_3'', ''venue_1'') \<notin> ledger (interests_list (run demo (initial []) two_calls)) \<and>
   express_interest_with (failing_agent (Exception ''booking service down'')) 3 demo
       (toggle ''user_3'' ''venue_1'') (run demo (initial []) two_calls)
     = (Inr InterestRecorded,
        \<lparr>interests_list = interests_list (run demo (initial []) two_calls)
            @ [new_interest 3 (toggle ''user_3'' ''venue_1'')],
          bookings_list = []\<rparr>,
        [(INFO, ''Express interest request: user=user_3, venue=venue_1''),
         (INFO, ''Interest added: user=user_3, venue=venue_1''),
         (ERROR, ''Booking agent error: booking service down'')])"
proof -
  have fresh: "(''user_3'', ''venue_1'') \<notin> ledger (interests_list (run demo (initial []) two_calls))"
    by (simp add: demo_two_ledger)
  have raises: "failing_agent (Exception ''booking service down'') ''venue_1''
      (v_name (snd (mk_venue ''venue_1'' ''Blue Bottle'' ''Coffee Shop'')))
      (length (interested_user_ids_of (interests_list (run demo (initial []) two_calls)
         @ [new_interest 3 (toggle ''user_3'' ''venue_1'')]) ''venue_1''))
      (interested_user_ids_of (interests_list (run demo (initial []) two_calls)
         @ [new_interest 3 (toggle ''user_3'' ''venue_1'')]) ''venue_1'')
      (bookings_list (run demo (initial []) two_calls)) = Inl (Exception ''booking service down'')"
    by (simp add: failing_agent_def)
  from collaborator_fault_recovered [where agent = "failing_agent (Exception ''booking service down'')"
      and t = 3, OF demo_user_3 demo_venue_1 fresh raises]
    demo_user_3 demo_venue_1 fresh
  show ?thesis by (simp add: demo_two_bookings)
qed

section \<open>The score does not see the viewing user\<close>

lemma others_count:
  "length (filter (\<lambda>i. i_venue_id i = v \<and> i_user_id i \<noteq> u) il)
     = size (filter_mset (\<lambda>i. i_venue_id i = v) (mset (filter (\<lambda>i. i_user_id i \<noteq> u) il)))"
proof -
  let ?P = "\<lambda>i. i_venue_id i = v" and ?Q = "\<lambda>i. i_user_id i \<noteq> u"
  have "filter (\<lambda>i. i_venue_id i = v \<and> i_user_id i \<noteq> u) il = filter ?P (filter ?Q il)"
    by (induction il) simp_all
  moreover have "length (filter ?P (filter ?Q il)) = size (mset (filter ?P (filter ?Q il)))"
    by (simp only: size_mset)
  moreover have "mset (filter ?P (filter ?Q il)) = filter_mset ?P (mset (filter ?Q il))"
    by (simp only: mset_filter)
  ultimately show ?thesis by (simp only:)
qed

lemma score_of_others:
  "fst (calculate_recommendation_score d il u v) =
     (case map_of (users_dict d) u of None \<Rightarrow> 0 | Some user \<Rightarrow>
      case map_of (venues_dict d) v of None \<Rightarrow> 0 | Some venue \<Rightarrow>
        min (of_nat (count_friends_interested il u v) / 3) 3
        + (if category_matches (u_interests user) (v_category venue) then 4 else 0)
        + of_nat (min (count_friends_interested il u v) 3))"
  by (simp add: calculate_recommendation_score_def Let_def count_friends_interested_def
        split: option.splits)

lemma friends_of_others:
  "count_friends_interested il u v
     = size (filter_mset (\<lambda>i. i_venue_id i = v) (mset (filter (\<lambda>i. i_user_id i \<noteq> u) il)))"
  by (simp only: count_friends_interested_def others_count)

lemma score_cong:
  assumes "mset (filter (\<lambda>i. i_user_id i \<noteq> u) il) = mset (filter (\<lambda>i. i_user_id i \<noteq> u) il')"
  shows "fst (calculate_recommendation_score d il u v)
       = fst (calculate_recommendation_score d il' u v)"
proof -
  from assms have "count_friends_interested il u v = count_friends_interested il' u v"
    by (simp only: friends_of_others)
  then show ?thesis by (simp only: score_of_others)
qed

lemma others_after_toggle:
  "filter (\<lambda>i. i_user_id i \<noteq> u)
      (interests_list (state_of (express_interest_with agent t d (toggle u v') s)))
   = filter (\<lambda>i. i_user_id i \<noteq> u) (interests_list s)"
proof (cases "find_existing u v' (interests_list s)")
  case None
  then show ?thesis
    by (simp add: express_interest_with_interests new_interest_def)
next
  case (Some k)
  with others_pop [OF Some] show ?thesis
    by (simp add: express_interest_with_interests)
qed

text \<open>
  C4. The score of a venue for a user is the same in any two interest lists that hold
  the same interests of the other users; so it is the same before and after a call in
  which the user toggles an interest of their own, in that venue or in any other,
  whatever the collaborator does.
\<close>

theorem score_ignores_own_interests:
  "(mset (filter (\<lambda>i. i_user_id i \<noteq> u) il) = mset (filter (\<lambda>i. i_user_id i \<noteq> u) il') \<longrightarrow>
      fst (calculate_recommendation_score d il u v)
        = fst (calculate_recommendation_score d il' u v)) \<and>
   fst (calculate_recommendation_score d
          (interests_list (state_of (express_interest d e (toggle u v) s))) u v)
     = fst (calculate_recommendation_score d (interests_list s) u v) \<and>
   fst (calculate_recommendation_score d
          (interests_list (state_of (express_interest_with agent t d (toggle u v') s))) u v)
     = fst (calculate_recommendation_score d (interests_list s) u v)"
proof (intro conjI impI)
  assume "mset (filter (\<lambda>i. i_user_id i \<noteq> u) il) = mset (filter (\<lambda>i. i_user_id i \<noteq> u) il')"
  then show "fst (calculate_recommendation_score d il u v)
        = fst (calculate_recommendation_score d il' u v)"
    by (rule score_cong)
next
  show "fst (calculate_recommendation_score d
          (interests_list (state_of (express_interest d e (toggle u v) s))) u v)
     = fst (calculate_recommendation_score d (interests_list s) u v)"
    unfolding express_interest_def
    by (rule score_cong) (simp only: others_after_toggle)
next
  show "fst (calculate_recommendation_score d
          (interests_list (state_of (express_interest_with agent t d (toggle u v') s))) u v)
     = fst (calculate_recommendation_score d (interests_list s) u v)"
    by (rule score_cong) (simp only: others_after_toggle)
qed

theorem score_ignores_own_interests_witness:
  "mset (filter (\<lambda>i. i_user_id i \<noteq> ''user_1'')
          (interests_list (state_of (express_interest demo (world 5 5555)
             (toggle ''user_1'' ''venue_1'') (run demo (initial []) three_calls)))))
     = mset (filter (\<lambda>i. i_user_id i \<noteq> ''user_1'')
          (interests_list (run demo (initial []) three_calls))) \<and>
   fst (calculate_recommendation_score demo
          (interests_list (state_of (express_interest demo (world 5 5555)
             (toggle ''user_1'' ''venue_1'') (run demo (initial []) three_calls))))
          ''user_1'' ''venue_1'')
     = fst (calculate_recommendation_score demo
          (interests_list (run demo (initial []) three_calls)) ''user_1'' ''venue_1'')"
proof -
  have h: "mset (filter (\<lambda>i. i_user_id i \<noteq> ''user_1'')
          (interests_list (state_of (express_interest demo (world 5 5555)
             (toggle ''user_1'' ''venue_1'') (run demo (initial []) three_calls)))))
     = mset (filter (\<lambda>i. i_user_id i \<noteq> ''user_1'')
          (interests_list (run demo (initial []) three_calls)))"
    by (simp only: express_interest_def others_after_toggle)
  from score_ignores_own_interests [where u = "''user_1''" and d = demo and v = "''venue_1''"
      and il = "interests_list (state_of (express_interest demo (world 5 5555)
             (toggle ''user_1'' ''venue_1'') (run demo (initial []) three_calls)))"
      and il' = "interests_list (run demo (initial []) three_calls)"] h
  show ?thesis by blast
qed

section \<open>The three factors of the score\<close>

lemma score_formula:
  assumes u: "map_of (users_dict d) u = Some user" and v: "map_of (venues_dict d) v = Some venue"
  shows "fst (calculate_recommendation_score d il u v) =
        min (of_nat (count_friends_interested il u v) / 3) 3
        + (if category_matches (u_interests user) (v_category venue) then 4 else 0)
        + of_nat (min (count_friends_interested il u v) 3)"
  by (simp add: score_of_others u v)

lemma category_matches_iff:
  "category_matches tags category \<longleftrightarrow>
     (\<exists>tag\<in>set tags. sublist (lower tag) (lower category) \<or> sublist (lower category) (lower tag))"
  by (simp add: category_matches_def Let_def list_ex_iff)

lemma friends_card:
  assumes "unique_interests il"
  shows "count_friends_interested il u v = card {w. w \<noteq> u \<and> (w, v) \<in> ledger il}"
proof -
  let ?xs = "filter (\<lambda>i. i_venue_id i = v \<and> i_user_id i \<noteq> u) il"
  from assms have "distinct (map interest_key ?xs)"
    by (simp add: unique_interests_def distinct_map_filter)
  moreover have "map interest_key ?xs = map (\<lambda>w. (w, v)) (map i_user_id ?xs)"
    by (induction il) (simp_all add: interest_key_def)
  ultimately have "distinct (map (\<lambda>w. (w, v)) (map i_user_id ?xs))" by simp
  then have d: "distinct (map i_user_id ?xs)"
    by (simp only: distinct_map [of "\<lambda>w. (w, v)"])
  have "set (map i_user_id ?xs) = {w. w \<noteq> u \<and> (w, v) \<in> ledger il}"
  proof (intro set_eqI iffI)
    fix w assume "w \<in> set (map i_user_id ?xs)"
    then obtain i where "i \<in> set il" "i_venue_id i = v" "i_user_id i \<noteq> u" "w = i_user_id i"
      by auto
    then have "w \<noteq> u" and "interest_key i = (w, v)" by (simp_all add: interest_key_def)
    with \<open>i \<in> set il\<close> have "(w, v) \<in> ledger il" unfolding ledger_def by force
    with \<open>w \<noteq> u\<close> show "w \<in> {w. w \<noteq> u \<and> (w, v) \<in> ledger il}" by simp
  next
    fix w assume "w \<in> {w. w \<noteq> u \<and> (w, v) \<in> ledger il}"
    then have "w \<noteq> u" and "(w, v) \<in> set (map interest_key il)" by (simp_all add: ledger_def)
    then obtain i where "i \<in> set il" "interest_key i = (w, v)" by auto
    then have "i \<in> set ?xs" "i_user_id i = w"
      using \<open>w \<noteq> u\<close> by (simp_all add: interest_key_def)
    then show "w \<in> set (map i_user_id ?xs)" by force
  qed
  then have "card {w. w \<noteq> u \<and> (w, v) \<in> ledger il} = card (set (map i_user_id ?xs))"
    by simp
  also have "\<dots> = length (map i_user_id ?xs)"
    using d by (rule distinct_card)
  finally show ?thesis by (simp add: count_friends_interested_def)
qed

lemma demo_venue_3:
  "map_of (venues_dict demo) ''venue_3'' = Some (snd (mk_venue ''venue_3'' ''Dive'' ''Bar''))"
  by (simp add: demo_def mk_venue_def)

lemma bar_in_tag: "sublist (lower ''Bar'') (lower ''coffee shops and bars'')"
  by code_simp

lemma tag_not_in_bar: "\<not> sublist (lower ''coffee shops and bars'') (lower ''Bar'')"
  by code_simp

lemma demo_score_4: "fst (calculate_recommendation_score demo [] ''user_4'' ''venue_3'') = 4"
  using bar_in_tag
  by (simp add: score_formula [OF demo_user_4 demo_venue_3] category_matches_iff
        count_friends_interested_def mk_user_def mk_venue_def)

lemma demo_spec_0:
  "spec_score (count_friends_interested [] ''user_4'' ''venue_3'') [''coffee shops and bars''] ''Bar'' = 0"
  using tag_not_in_bar
  by (simp add: spec_score_def spec_category_match_def count_friends_interested_def)

text \<open>
  Read in one direction only, the category factor is not what the code computes: for
  the tag \<open>coffee shops and bars\<close> and the category \<open>Bar\<close>, with no interests
  recorded, the code scores 4, since the category occurs in the tag, and the
  one-directional formula gives 0.
\<close>

theorem score_formula_counterexample:
  "fst (calculate_recommendation_score demo [] ''user_4'' ''venue_3'')
     \<noteq> spec_score (count_friends_interested [] ''user_4'' ''venue_3'')
          (u_interests (snd (mk_user ''user_4'' ''Di'' [''coffee shops and bars''])))
          (v_category (snd (mk_venue ''venue_3'' ''Dive'' ''Bar'')))"
  using demo_score_4 demo_spec_0 by (simp add: mk_user_def mk_venue_def)

text \<open>
  C6, as the code has it. For a user and a venue of the directory, with c the number of
  interests in the venue held by other users, the score is min(c / 3, 3), plus 4 if
  some interest tag of the user, in lower case, occurs in the lower-case category of the
  venue or the category occurs in the tag, plus min(c, 3); so it is at most 10. Where
  every (user, venue) pair is recorded at most once, c is the number of other users
  interested in the venue.
\<close>

theorem score_is_sum_of_three_factors:
  fixes d il u v
  defines "c \<equiv> count_friends_interested il u v"
  assumes u: "map_of (users_dict d) u = Some user"
    and v: "map_of (venues_dict d) v = Some venue"
  shows "fst (calculate_recommendation_score d il u v) =
      min (of_nat c / 3) 3
      + (if \<exists>tag\<in>set (u_interests user).
              sublist (lower tag) (lower (v_category venue))
              \<or> sublist (lower (v_category venue)) (lower tag)
         then 4 else 0)
      + of_nat (min c 3) \<and>
    fst (calculate_recommendation_score d il u v) \<le> 10 \<and>
    (unique_interests il \<longrightarrow> c = card {w. w \<noteq> u \<and> (w, v) \<in> ledger il})"
proof -
  have f: "fst (calculate_recommendation_score d il u v) =
      min (of_nat c / 3) 3
      + (if \<exists>tag\<in>set (u_interests user).
              sublist (lower tag) (lower (v_category venue))
              \<or> sublist (lower (v_category venue)) (lower tag)
         then 4 else 0)
      + of_nat (min c 3)"
    unfolding c_def score_formula [OF u v] category_matches_iff ..
  have p: "min (of_nat c / 3) (3::rat) \<le> 3" by simp
  have q: "(of_nat (min c 3) :: rat) \<le> 3"
    by (metis min.cobounded2 of_nat_le_iff of_nat_numeral)
  have m: "(if \<exists>tag\<in>set (u_interests user).
              sublist (lower tag) (lower (v_category venue))
              \<or> sublist (lower (v_category venue)) (lower tag)
         then 4 else 0) \<le> (4::rat)"
    by simp
  have "min (of_nat c / 3) 3
      + (if \<exists>tag\<in>set (u_interests user).
              sublist (lower tag) (lower (v_category venue))
              \<or> sublist (lower (v_category venue)) (lower tag)
         then 4 else 0)
      + of_nat (min c 3) \<le> (3::rat) + 4 + 3"
    by (intro add_mono p q m)
  then have "fst (calculate_recommendation_score d il u v) \<le> 10"
    unfolding f by simp
  moreover have "unique_interests il \<longrightarrow> c = card {w. w \<noteq> u \<and> (w, v) \<in> ledger il}"
    unfolding c_def using friends_card by blast
  ultimately show ?thesis using f by blast
qed

lemma demo_four_friends:
  "count_friends_interested (interests_list (run demo (initial []) four_calls))
     ''user_4'' ''venue_1'' = 3"
  by code_simp

lemma coffee_in_tag: "sublist (lower ''Coffee Shop'') (lower ''coffee shops and bars'')"
  by code_simp

theorem score_is_sum_of_three_factors_witness:
  "map_of (users_dict demo) ''user_4''
     = Some (snd (mk_user ''user_4'' ''Di'' [''coffee shops and bars''])) \<and>
   map_of (venues_dict demo) ''venue_1''
     = Some (snd (mk_venue ''venue_1'' ''Blue Bottle'' ''Coffee Shop'')) \<and>
   fst (calculate_recommendation_score demo
          (interests_list (run demo (initial []) four_calls)) ''user_4'' ''venue_1'') = 8"
proof -
  from score_is_sum_of_three_factors [OF demo_user_4 demo_venue_1,
      where il = "interests_list (run demo (initial []) four_calls)"]
  have "fst (calculate_recommendation_score demo
          (interests_list (run demo (initial []) four_calls)) ''user_4'' ''venue_1'') = 8"
    using coffee_in_tag by (simp add: demo_four_friends mk_user_def mk_venue_def)
  with demo_user_4 demo_venue_1 show ?thesis by blast
qed

section \<open>Booking records are kept\<close>

lemma registry_evolves_trans:
  "registry_evolves A B \<Longrightarrow> registry_evolves B C \<Longrightarrow> registry_evolves A C"
proof (induction A B arbitrary: C rule: registry_evolves.induct)
  case (1 B')
  then show ?case by simp
next
  case (2 b B)
  then show ?case by simp
next
  case (3 b B b' B')
  from "3.prems"(2) obtain c C' where C: "C = c # C'" by (cases C) auto
  with "3.prems" have k: "booking_kept b b'" "booking_kept b' c"
    and r: "registry_evolves B B'" "registry_evolves B' C'"
    by simp_all
  from k have "booking_kept b c" by (auto simp: booking_kept_def)
  moreover from "3.IH" [OF r] have "registry_evolves B C'" .
  ultimately show ?case by (simp add: C)
qed

lemma try_block_bookings:
  "registry_evolves B (fst (snd (try_block agent request name n ids B)))"
  by (simp add: try_block_def Let_def registry_evolves_refl registry_evolves_append
        split: sum.splits option.splits bool.splits)

lemma toggle_on_bookings:
  "bookings_list (fst (snd (toggle_on agent t ven request s)))
     = fst (snd (try_block agent request (v_name ven)
         (length (interested_user_ids_of (interests_list s @ [new_interest t request])
            (req_venue_id request)))
         (interested_user_ids_of (interests_list s @ [new_interest t request])
            (req_venue_id request))
         (bookings_list s)))"
  by (simp add: toggle_on_def Let_def new_interest_def interested_user_ids_of_def
        split: prod.splits sum.splits)

lemma registry_evolves_step_with:
  "registry_evolves (bookings_list s)
     (bookings_list (state_of (express_interest_with agent t d request s)))"
proof -
  have off: "registry_evolves (bookings_list s)
      (bookings_list (fst (snd (toggle_off ven request k s))))" for ven k
    by (simp add: toggle_off_eq Let_def registry_evolves_refl registry_evolves_cancel)
  have on: "registry_evolves (bookings_list s)
      (bookings_list (fst (snd (toggle_on agent t ven request s))))" for ven
    by (simp only: toggle_on_bookings try_block_bookings)
  show ?thesis
    by (simp add: express_interest_with_def state_of_def Let_def case_prod_beta
          registry_evolves_refl off on split: option.splits)
qed

lemma registry_evolves_run: "registry_evolves (bookings_list s) (bookings_list (run d s calls))"
proof (induction calls arbitrary: s)
  case Nil
  show ?case by (simp add: registry_evolves_refl)
next
  case (Cons c calls)
  obtain e request where c: "c = (e, request)" by (cases c)
  let ?s1 = "state_of (express_interest d e request s)"
  have "registry_evolves (bookings_list s) (bookings_list ?s1)"
    unfolding express_interest_def by (rule registry_evolves_step_with)
  moreover have "registry_evolves (bookings_list ?s1) (bookings_list (run d ?s1 calls))"
    by (rule Cons.IH)
  ultimately have "registry_evolves (bookings_list s) (bookings_list (run d ?s1 calls))"
    by (rule registry_evolves_trans)
  then show ?case by (simp add: c state_of_def)
qed

lemma registry_evolves_nth:
  "registry_evolves B B' \<Longrightarrow> i < length B \<Longrightarrow> i < length B' \<and> booking_kept (B ! i) (B' ! i)"
proof (induction B B' arbitrary: i rule: registry_evolves.induct)
  case (1 B')
  then show ?case by simp
next
  case (2 b B)
  then show ?case by simp
next
  case (3 b B b' B')
  then show ?case by (cases i) auto
qed

lemma user_bookings_loop_lists:
  "b \<in> set B \<Longrightarrow> b_status b = ''active'' \<Longrightarrow> u \<in> set (b_user_ids b) \<Longrightarrow>
     map_of (venues_dict d) (b_venue_id b) = Some ven \<Longrightarrow>
     user_booking_entry b ven \<in> set (user_bookings_loop d u B)"
  by (induction B) (auto split: option.splits)

lemma still_listed:
  fixes d e u v s
  defines "r \<equiv> express_interest d e (toggle u v) s"
  assumes u: "map_of (users_dict d) u = Some usr"
    and v: "map_of (venues_dict d) v = Some ven"
    and held: "(u, v) \<in> ledger (interests_list s)"
    and n: "3 \<le> get_interested_count (interests_list (state_of r)) v"
    and b: "b \<in> set (bookings_list s)" "b_venue_id b = v" "b_status b = ''active''"
      "u \<in> set (b_user_ids b)"
  shows "response_of r = Inr (InterestRemoved (v_name ven)) \<and>
         bookings_list (state_of r) = bookings_list s \<and>
         (\<exists>entries. get_user_bookings d (state_of r) u = Inr entries \<and>
            user_booking_entry b ven \<in> set entries)"
proof -
  from held obtain k where k: "find_existing u v (interests_list s) = Some k"
    using find_existing_None [of u v "interests_list s"]
    by (cases "find_existing u v (interests_list s)") auto
  have st: "state_of r = fst (snd (toggle_off ven (toggle u v) k s))"
    by (simp add: r_def express_interest_state u v k)
  have rs: "response_of r = Inr (fst (toggle_off ven (toggle u v) k s))"
    by (simp add: r_def express_interest_response u v k)
  have il: "interests_list (state_of r) = pop k (interests_list s)"
    by (simp add: st toggle_off_interests)
  from n have n': "\<not> get_interested_count (pop k (interests_list s)) v < 3"
    by (simp add: il)
  have 1: "response_of r = Inr (InterestRemoved (v_name ven))"
    using n' by (simp add: rs toggle_off_eq Let_def)
  have 2: "bookings_list (state_of r) = bookings_list s"
    using n' by (simp add: st toggle_off_eq Let_def)
  have "get_user_bookings d (state_of r) u = Inr (user_bookings_loop d u (bookings_list s))"
    by (simp add: get_user_bookings_def u 2)
  moreover have "user_booking_entry b ven \<in> set (user_bookings_loop d u (bookings_list s))"
    using b v by (intro user_bookings_loop_lists) simp_all
  ultimately show ?thesis using 1 2 by blast
qed

text \<open>
  C10. A call of the endpoint, with any collaborator, and so any sequence of calls,
  keeps every booking record at its place in the list, with its id, venue, user ids,
  reservation code and creation time as they were, and with its status as it was or
  changed from active to cancelled; the endpoints that read return no state. The user
  ids of a booking are those interested when it was made: when a user named in an
  active booking toggles off and three or more interests remain, the list of bookings
  is as before and the bookings of that user still hold this one.
\<close>

theorem registry_keeps_its_records:
  "registry_evolves (bookings_list s)
     (bookings_list (state_of (express_interest_with agent t d request s))) \<and>
   registry_evolves (bookings_list s)
     (bookings_list (state_of (express_interest d e request s))) \<and>
   registry_evolves (bookings_list s) (bookings_list (run d s calls)) \<and>
   (\<forall>i<length (bookings_list s). i < length (bookings_list (run d s calls)) \<and>
      booking_kept (bookings_list s ! i) (bookings_list (run d s calls) ! i)) \<and>
   (map_of (users_dict d) u = Some usr \<and> map_of (venues_dict d) v = Some ven \<and>
    (u, v) \<in> ledger (interests_list s) \<and>
    3 \<le> get_interested_count
          (interests_list (state_of (express_interest d e (toggle u v) s))) v \<and>
    b \<in> set (bookings_list s) \<and> b_venue_id b = v \<and> b_status b = ''active'' \<and>
    u \<in> set (b_user_ids b) \<longrightarrow>
      response_of (express_interest d e (toggle u v) s) = Inr (InterestRemoved (v_name ven)) \<and>
      bookings_list (state_of (express_interest d e (toggle u v) s)) = bookings_list s \<and>
      (\<exists>entries. get_user_bookings d (state_of (express_interest d e (toggle u v) s)) u
           = Inr entries \<and> user_booking_entry b ven \<in> set entries))"
proof (intro conjI allI impI)
  show "registry_evolves (bookings_list s)
     (bookings_list (state_of (express_interest_with agent t d request s)))"
    by (rule registry_evolves_step_with)
  show "registry_evolves (bookings_list s)
     (bookings_list (state_of (express_interest d e request s)))"
    unfolding express_interest_def by (rule registry_evolves_step_with)
  show "registry_evolves (bookings_list s) (bookings_list (run d s calls))"
    by (rule registry_evolves_run)
next
  fix i assume "i < length (bookings_list s)"
  from registry_evolves_nth [OF registry_evolves_run this]
  show "i < length (bookings_list (run d s calls))"
    and "booking_kept (bookings_list s ! i) (bookings_list (run d s calls) ! i)"
    by simp_all
next
  assume a: "map_of (users_dict d) u = Some usr \<and> map_of (venues_dict d) v = Some ven \<and>
    (u, v) \<in> ledger (interests_list s) \<and>
    3 \<le> get_interested_count
          (interests_list (state_of (express_interest d e (toggle u v) s))) v \<and>
    b \<in> set (bookings_list s) \<and> b_venue_id b = v \<and> b_status b = ''active'' \<and>
    u \<in> set (b_user_ids b)"
  then have "response_of (express_interest d e (toggle u v) s) = Inr (InterestRemoved (v_name ven)) \<and>
      bookings_list (state_of (express_interest d e (toggle u v) s)) = bookings_list s \<and>
      (\<exists>entries. get_user_bookings d (state_of (express_interest d e (toggle u v) s)) u
           = Inr entries \<and> user_booking_entry b ven \<in> set entries)"
    by (intro still_listed) simp_all
  then show "response_of (express_interest d e (toggle u v) s) = Inr (InterestRemoved (v_name ven))"
    and "bookings_list (state_of (express_interest d e (toggle u v) s)) = bookings_list s"
    and "\<exists>entries. get_user_bookings d (state_of (express_interest d e (toggle u v) s)) u
           = Inr entries \<and> user_booking_entry b ven \<in> set entries"
    by simp_all
qed

lemma demo_four_ledger:
  "(''user_1'', ''venue_1'') \<in> ledger (interests_list (run demo (initial []) four_calls))"
  by code_simp

lemma demo_four_off_count:
  "3 \<le> get_interested_count (interests_list (state_of (express_interest demo (world 5 5555)
      (toggle ''user_1'' ''venue_1'') (run demo (initial []) four_calls)))) ''venue_1''"
  by code_simp

lemma demo_four_bookings:
  "bookings_list (run demo (initial []) four_calls)
     = [new_booking (world 3 3333) ''venue_1'' [''user_1'', ''user_2'', ''user_3''] []]"
  by code_simp

theorem registry_keeps_its_records_witness:
  "map_of (users_dict demo) ''user_1'' = Some (snd (mk_user ''user_1'' ''Ann'' [''coffee''])) \<and>
   map_of (venues_dict demo) ''venue_1''
     = Some (snd (mk_venue ''venue_1'' ''Blue Bottle'' ''Coffee Shop'')) \<and>
   (''user_1'', ''venue_1'') \<in> ledger (interests_list (run demo (initial []) four_calls)) \<and>
   3 \<le> get_interested_count (interests_list (state_of (express_interest demo (world 5 5555)
      (toggle ''user_1'' ''venue_1'') (run demo (initial []) four_calls)))) ''venue_1'' \<and>
   response_of (express_interest demo (world 5 5555) (toggle ''user_1'' ''venue_1'')
      (run demo (initial []) four_calls)) = Inr (InterestRemoved ''Blue Bottle'') \<and>
   (\<exists>entries. get_user_bookings demo
        (state_of (express_interest demo (world 5 5555) (toggle ''user_1'' ''venue_1'')
           (run demo (initial []) four_calls))) ''user_1'' = Inr entries \<and>
      user_booking_entry
        (new_booking (world 3 3333) ''venue_1'' [''user_1'', ''user_2'', ''user_3''] [])
        (snd (mk_venue ''venue_1'' ''Blue Bottle'' ''Coffee Shop'')) \<in> set entries)"
proof -
  let ?b = "new_booking (world 3 3333) ''venue_1'' [''user_1'', ''user_2'', ''user_3''] []"
  have b: "?b \<in> set (bookings_list (run demo (initial []) four_calls))"
    "b_venue_id ?b = ''venue_1''" "b_status ?b = ''active''" "''user_1'' \<in> set (b_user_ids ?b)"
    by (simp_all add: demo_four_bookings) (simp_all add: new_booking_def)
  have name: "v_name (snd (mk_venue ''venue_1'' ''Blue Bottle'' ''Coffee Shop'')) = ''Blue Bottle''"
    by (simp add: mk_venue_def)
  from registry_keeps_its_records [where d = demo and s = "run demo (initial []) four_calls"
      and e = "world 5 5555" and u = "''user_1''" and v = "''venue_1''" and b = ?b
      and usr = "snd (mk_user ''user_1'' ''Ann'' [''coffee''])"
      and ven = "snd (mk_venue ''venue_1'' ''Blue Bottle'' ''Coffee Shop'')"]
    demo_user_1 demo_venue_1 demo_four_ledger demo_four_off_count b
  have "response_of (express_interest demo (world 5 5555) (toggle ''user_1'' ''venue_1'')
      (run demo (initial []) four_calls)) = Inr (InterestRemoved ''Blue Bottle'') \<and>
   (\<exists>entries. get_user_bookings demo
        (state_of (express_interest demo (world 5 5555) (toggle ''user_1'' ''venue_1'')
           (run demo (initial []) four_calls))) ''user_1'' = Inr entries \<and>
      user_booking_entry ?b (snd (mk_venue ''venue_1'' ''Blue Bottle'' ''Coffee Shop''))
        \<in> set entries)"
    unfolding name by blast
  with demo_user_1 demo_venue_1 demo_four_ledger demo_four_off_count show ?thesis by blast
qed

section \<open>The ranking\<close>













end
